theory Spec2Isabelle
  imports Main "HOL-Library.Sublist"
begin

section \<open>Values shared by producers and consumers\<close>

text \<open>A Go \<open>error\<close> value, identified by its message; \<open>nil\<close> is \<open>None\<close> of \<open>error option\<close>.\<close>

datatype error = Error string

text \<open>
  A stream entry ID \<open><ms>-<seq>\<close> of the store; the literal \<open>"0-0"\<close> of the source is
  \<open>(0, 0)\<close>. The store compares IDs by \<open>ms\<close> first and by \<open>seq\<close> second.
\<close>

type_synonym stream_id = "nat \<times> nat"

definition id_less :: "stream_id \<Rightarrow> stream_id \<Rightarrow> bool" where
  "id_less a b = (fst a < fst b \<or> (fst a = fst b \<and> snd a < snd b))"

text \<open>A Go \<open>interface{}\<close> found in \<open>msg.Values\<close>: a string, or a value of another type.\<close>

datatype iface = IString string | INonString

record XMessage =
  ID :: stream_id
  Values :: "string \<rightharpoonup> iface"

record XStream =
  Stream :: string
  Messages :: "XMessage list"

text \<open>
  \<open>types.TFLogLine\<close>, with the fields \<open>getLogString\<close> reads; \<open>Diagnostic.Detail\<close> is
  the field \<open>Detail\<close> of the nested struct.
\<close>

record TFLogLineDiagnostic =
  Detail :: string

record TFLogLine =
  Level :: string
  Timestamp :: string
  Message :: string
  Diagnostic :: TFLogLineDiagnostic

text \<open>
  \<open>types.TFResourceStateEntry\<close>: the embedded pointer \<open>*TFResourceState\<close> (\<open>None\<close> is
  \<open>nil\<close>) and the time of the push. The struct \<open>types.TFResourceState\<close> is declared
  outside the files at hand, so it is the type parameter \<open>'st\<close>.
\<close>

record 'st TFResourceStateEntry =
  TFResourceState :: "'st option"
  PushedAt :: nat

text \<open>
  The calls into \<open>encoding/json\<close>, taken as parameters: \<open>json.Marshal(pushData)\<close>,
  \<open>json.Marshal\<close> of the \<open>map[string]interface{}\<close> of the completion marker, and
  \<open>json.Unmarshal([]byte(dataString), stateData)\<close> into a fresh \<open>&types.TFResourceState{}\<close>.
\<close>

record 'st json =
  Marshal_entry :: "'st TFResourceStateEntry \<Rightarrow> error + string"
  Marshal_map :: "(string \<rightharpoonup> iface) \<Rightarrow> error + string"
  Unmarshal :: "string \<Rightarrow> error + 'st"

section \<open>Stream naming\<close>

text \<open>
  \<open>models.GetWorkspaceID\<close> is declared outside the files at hand; it is the parameter
  \<open>GetWorkspaceID\<close> of every function that calls it, over any types of infra and operation.
\<close>

definition getStateStreamName :: "('i \<Rightarrow> 'o \<Rightarrow> string) \<Rightarrow> 'i \<Rightarrow> 'o \<Rightarrow> string" where
  "getStateStreamName GetWorkspaceID infra operation =
     GetWorkspaceID infra operation @ ''-state''"

definition getLogsStreamName :: "('i \<Rightarrow> 'o \<Rightarrow> string) \<Rightarrow> 'i \<Rightarrow> 'o \<Rightarrow> string" where
  "getLogsStreamName GetWorkspaceID infra operation =
     GetWorkspaceID infra operation @ ''-logs''"

definition getLogsFileName :: "('i \<Rightarrow> 'o \<Rightarrow> string) \<Rightarrow> 'i \<Rightarrow> 'o \<Rightarrow> string" where
  "getLogsFileName GetWorkspaceID infra operation =
     GetWorkspaceID infra operation @ ''-logs.txt''"

section \<open>The stream store behind \<open>*redis.Client\<close>\<close>

text \<open>
  The store is an external collaborator; its model follows the interface the specification
  gives it: \<open>append(stream_name, fields) \<rightarrow> entry_id\<close> with an auto-assigned, monotonically
  increasing entry ID, and \<open>read(stream_names_with_offsets, block=true)\<close> returning the
  entries after the offset, in order. A stream that was never appended to is the empty
  list. \<open>xadds\<close> counts the XADD commands issued so far.
\<close>

type_synonym entry = "stream_id \<times> (string \<rightharpoonup> string)"

record redis =
  streams :: "string \<Rightarrow> entry list"
  xadds :: nat

definition last_id :: "entry list \<Rightarrow> stream_id" where
  "last_id es = (if es = [] then (0, 0) else fst (last es))"

text \<open>
  The ID the store assigns for \<open>ID: "*"\<close>: its clock in milliseconds with sequence number
  0, or the last ID of the stream with the sequence number incremented when the clock has
  not moved past it.
\<close>

definition auto_id :: "nat \<Rightarrow> entry list \<Rightarrow> stream_id" where
  "auto_id now es =
     (if fst (last_id es) < now then (now, 0)
      else (fst (last_id es), Suc (snd (last_id es))))"

text \<open>
  \<open>client.XAdd(ctx, &redis.XAddArgs{Stream, ID: "*", Values}).Result()\<close>. \<open>fault\<close> is the
  error with which the command fails, if it does (the stream is then left as it was);
  \<open>now\<close> is the store's clock.
\<close>

definition XAdd ::
  "error option \<Rightarrow> nat \<Rightarrow> redis \<Rightarrow> string \<Rightarrow> (string \<rightharpoonup> string) \<Rightarrow> (error + stream_id) \<times> redis" where
  "XAdd fault now client stream vals =
     (case fault of
        Some err \<Rightarrow> (Inl err, client\<lparr>xadds := Suc (xadds client)\<rparr>)
      | None \<Rightarrow>
          (let newid = auto_id now (streams client stream) in
           (Inr newid,
            client\<lparr>streams := (streams client)(stream := streams client stream @ [(newid, vals)]),
                   xadds := Suc (xadds client)\<rparr>)))"

text \<open>An entry as \<open>XRead\<close> hands it to the caller: every stored field value is a string.\<close>

definition to_XMessage :: "entry \<Rightarrow> XMessage" where
  "to_XMessage e = \<lparr>ID = fst e, Values = map_option IString \<circ> snd e\<rparr>"

text \<open>
  \<open>client.XRead(ctx, &redis.XReadArgs{Streams: {stream, lastID}, Block: 0}).Result()\<close>
  against a store: the entries after \<open>lastID\<close>; \<open>None\<close> while there is none, since
  \<open>Block: 0\<close> waits without a timeout.
\<close>

definition store_XRead :: "redis \<Rightarrow> string \<Rightarrow> stream_id \<Rightarrow> (error + XStream list) option" where
  "store_XRead client stream lastID =
     (let new = filter (\<lambda>e. id_less lastID (fst e)) (streams client stream) in
      if new = [] then None
      else Some (Inr [\<lparr>Stream = stream, Messages = map to_XMessage new\<rparr>]))"

section \<open>Producers\<close>

text \<open>
  What a producer call meets outside the program: \<open>time.Now()\<close>, the error of the XADD
  command if it fails, and the clock of the store.
\<close>

record env =
  time_Now :: nat
  xadd_fault :: "error option"
  server_ms :: nat

definition PushToOperationStream ::
  "'st json \<Rightarrow> ('i \<Rightarrow> 'o \<Rightarrow> string) \<Rightarrow> env \<Rightarrow> redis \<Rightarrow> 'i \<Rightarrow> 'o \<Rightarrow> 'st option \<Rightarrow> error option \<times> redis" where
  "PushToOperationStream js GetWorkspaceID ev client infra operation data =
     (let streamName = getStateStreamName GetWorkspaceID infra operation;
          pushData = \<lparr>TFResourceState = data, PushedAt = time_Now ev\<rparr>
      in case Marshal_entry js pushData of
           Inl err \<Rightarrow> (Some err, client)
         | Inr dataBytes \<Rightarrow>
             (case XAdd (xadd_fault ev) (server_ms ev) client streamName
                     [''id'' \<mapsto> GetWorkspaceID infra operation, ''data'' \<mapsto> dataBytes] of
                (Inl err, client') \<Rightarrow> (Some err, client')
              | (Inr _, client') \<Rightarrow> (None, client')))"

definition SendOperationCompleted ::
  "'st json \<Rightarrow> ('i \<Rightarrow> 'o \<Rightarrow> string) \<Rightarrow> env \<Rightarrow> redis \<Rightarrow> 'i \<Rightarrow> 'o \<Rightarrow> error option \<times> redis" where
  "SendOperationCompleted js GetWorkspaceID ev client infra operation =
     (let streamName = getStateStreamName GetWorkspaceID infra operation;
          data = [''status'' \<mapsto> IString ''OPERATION_COMPLETED'']
      in case Marshal_map js data of
           Inl err \<Rightarrow> (Some err, client)
         | Inr dataBytes \<Rightarrow>
             (case XAdd (xadd_fault ev) (server_ms ev) client streamName
                     [''id'' \<mapsto> GetWorkspaceID infra operation, ''data'' \<mapsto> dataBytes] of
                (Inl err, client') \<Rightarrow> (Some err, client')
              | (Inr _, client') \<Rightarrow> (None, client')))"

definition getLogString :: "TFLogLine \<Rightarrow> string" where
  "getLogString data =
     (if Detail (Diagnostic data) \<noteq> ''''
      then ''['' @ Level data @ ''] ['' @ Timestamp data @ ''] '' @ Message data @ '': ''
             @ Detail (Diagnostic data) @ [CHR 0x0A]
      else ''['' @ Level data @ ''] ['' @ Timestamp data @ ''] '' @ Message data @ [CHR 0x0A])"

definition PushToLogStream ::
  "('i \<Rightarrow> 'o \<Rightarrow> string) \<Rightarrow> env \<Rightarrow> redis \<Rightarrow> 'i \<Rightarrow> 'o \<Rightarrow> TFLogLine \<Rightarrow> error option \<times> redis" where
  "PushToLogStream GetWorkspaceID ev client infra operation data =
     (let streamName = getLogsStreamName GetWorkspaceID infra operation
      in case XAdd (xadd_fault ev) (server_ms ev) client streamName
                [''log'' \<mapsto> getLogString data] of
           (Inl err, client') \<Rightarrow> (Some err, client')
         | (Inr _, client') \<Rightarrow> (None, client'))"

section \<open>Consumers\<close>

text \<open>
  A tail never ends by itself, and what it reads depends on what the store, the network and
  the context do meanwhile. The outside is a list of moments: at each one the pending
  \<open>XRead\<close> of the tail either returns (\<open>Some\<close>: an error, or the streams read) or stays
  blocked (\<open>None\<close>), and \<open>ctx_Done\<close> tells whether \<open>ctx.Done()\<close> is closed when the
  \<open>select\<close> after the batch runs. The tail passes \<open>ctx\<close> to \<open>XRead\<close>: when the context is
  cancelled while the read is blocked, the client ends the read with the error of the
  context, so that moment has \<open>XRead\<close> returning this error. A moment with a batch and
  \<open>ctx_Done\<close> is one where the cancellation fires after the read has returned and before
  the \<open>select\<close>.
\<close>

record world =
  XRead :: "string \<Rightarrow> stream_id \<Rightarrow> (error + XStream list) option"
  ctx_Done :: bool

text \<open>
  How a tail call ends: it returns (\<open>nil\<close> or an error), it panics on an index out of
  range, or it is still blocked in \<open>XRead\<close> after the last moment observed, waiting for
  the entries after the \<open>lastID\<close> given.
\<close>

datatype outcome = Returned "error option" | Panicked | Blocked stream_id

text \<open>
  A sink is a Go closure and may keep state between calls. It is given as a function of the
  records it has accepted so far in this tail call and of the record handed to it now.
\<close>

type_synonym LogWriter = "string list \<Rightarrow> string \<Rightarrow> error option"

type_synonym 'st StateUpdateWriter = "'st list \<Rightarrow> 'st \<Rightarrow> error option"

text \<open>
  The \<open>for _, msg := range messages\<close> of \<open>StreamOperationLogs\<close>; \<open>sent\<close> are the lines
  the sink has accepted. The result is \<open>sent\<close> afterwards and the error that ended the
  loop early, if any.
\<close>

fun range_log_messages ::
  "LogWriter \<Rightarrow> XMessage list \<Rightarrow> string list \<Rightarrow> string list \<times> error option" where
  "range_log_messages send [] sent = (sent, None)"
| "range_log_messages send (msg # msgs) sent =
     (case Values msg ''log'' of
        None \<Rightarrow> range_log_messages send msgs sent
      | Some dataInter \<Rightarrow>
          (case dataInter of
             INonString \<Rightarrow> range_log_messages send msgs sent
           | IString dataString \<Rightarrow>
               (case send sent dataString of
                  Some err \<Rightarrow> (sent, Some err)
                | None \<Rightarrow> range_log_messages send msgs (sent @ [dataString]))))"

text \<open>The \<open>for { ... }\<close> of \<open>StreamOperationLogs\<close>, from a given \<open>lastID\<close>.\<close>

fun logs_loop ::
  "LogWriter \<Rightarrow> string \<Rightarrow> world list \<Rightarrow> stream_id \<Rightarrow> string list \<Rightarrow> string list \<times> outcome" where
  "logs_loop send streamName [] lastID sent = (sent, Blocked lastID)"
| "logs_loop send streamName (w # ws) lastID sent =
     (case XRead w streamName lastID of
        None \<Rightarrow> logs_loop send streamName ws lastID sent
      | Some (Inl err) \<Rightarrow> (sent, Returned (Some err))
      | Some (Inr xstream) \<Rightarrow>
          (case xstream of
             [] \<Rightarrow> (sent, Panicked)
           | x0 # _ \<Rightarrow>
               (let messages = Messages x0 in
                if messages = [] then (sent, Panicked)
                else (case range_log_messages send messages sent of
                        (sent', Some err) \<Rightarrow> (sent', Returned (Some err))
                      | (sent', None) \<Rightarrow>
                          if ctx_Done w then (sent', Returned None)
                          else logs_loop send streamName ws (ID (last messages)) sent'))))"

definition StreamOperationLogs ::
  "('i \<Rightarrow> 'o \<Rightarrow> string) \<Rightarrow> world list \<Rightarrow> 'i \<Rightarrow> 'o \<Rightarrow> LogWriter \<Rightarrow> string list \<times> outcome" where
  "StreamOperationLogs GetWorkspaceID ws infra operation send =
     logs_loop send (getLogsStreamName GetWorkspaceID infra operation) ws (0, 0) []"

text \<open>The \<open>for _, msg := range messages\<close> of \<open>StreamStateUpdate\<close>.\<close>

fun range_state_messages ::
  "'st json \<Rightarrow> 'st StateUpdateWriter \<Rightarrow> XMessage list \<Rightarrow> 'st list \<Rightarrow> 'st list \<times> error option" where
  "range_state_messages js send [] sent = (sent, None)"
| "range_state_messages js send (msg # msgs) sent =
     (case Values msg ''data'' of
        None \<Rightarrow> range_state_messages js send msgs sent
      | Some dataInter \<Rightarrow>
          (case dataInter of
             INonString \<Rightarrow> range_state_messages js send msgs sent
           | IString dataString \<Rightarrow>
               (case Unmarshal js dataString of
                  Inl err \<Rightarrow> range_state_messages js send msgs sent
                | Inr stateData \<Rightarrow>
                    (case send sent stateData of
                       Some err \<Rightarrow> (sent, Some err)
                     | None \<Rightarrow> range_state_messages js send msgs (sent @ [stateData])))))"

text \<open>The \<open>for { ... }\<close> of \<open>StreamStateUpdate\<close>, from a given \<open>lastID\<close>.\<close>

fun state_loop ::
  "'st json \<Rightarrow> 'st StateUpdateWriter \<Rightarrow> string \<Rightarrow> world list \<Rightarrow> stream_id \<Rightarrow> 'st list
     \<Rightarrow> 'st list \<times> outcome" where
  "state_loop js send streamName [] lastID sent = (sent, Blocked lastID)"
| "state_loop js send streamName (w # ws) lastID sent =
     (case XRead w streamName lastID of
        None \<Rightarrow> state_loop js send streamName ws lastID sent
      | Some (Inl err) \<Rightarrow> (sent, Returned (Some err))
      | Some (Inr xstream) \<Rightarrow>
          (case xstream of
             [] \<Rightarrow> (sent, Panicked)
           | x0 # _ \<Rightarrow>
               (let messages = Messages x0 in
                if messages = [] then (sent, Panicked)
                else (case range_state_messages js send messages sent of
                        (sent', Some err) \<Rightarrow> (sent', Returned (Some err))
                      | (sent', None) \<Rightarrow>
                          if ctx_Done w then (sent', Returned None)
                          else state_loop js send streamName ws (ID (last messages)) sent'))))"

definition StreamStateUpdate ::
  "'st json \<Rightarrow> ('i \<Rightarrow> 'o \<Rightarrow> string) \<Rightarrow> world list \<Rightarrow> 'i \<Rightarrow> 'o \<Rightarrow> 'st StateUpdateWriter
     \<Rightarrow> 'st list \<times> outcome" where
  "StreamStateUpdate js GetWorkspaceID ws infra operation send =
     state_loop js send (getStateStreamName GetWorkspaceID infra operation) ws (0, 0) []"

section \<open>The skeleton both tails share\<close>

text \<open>
  What a tail hands to its sink for one message, or \<open>None\<close> when the message is skipped:
  the \<open>continue\<close> branches of the two range loops.
\<close>

definition log_of :: "XMessage \<Rightarrow> string option" where
  "log_of msg =
     (case Values msg ''log'' of
        None \<Rightarrow> None
      | Some INonString \<Rightarrow> None
      | Some (IString dataString) \<Rightarrow> Some dataString)"

definition state_of :: "'st json \<Rightarrow> XMessage \<Rightarrow> 'st option" where
  "state_of js msg =
     (case Values msg ''data'' of
        None \<Rightarrow> None
      | Some INonString \<Rightarrow> None
      | Some (IString dataString) \<Rightarrow>
          (case Unmarshal js dataString of Inl err \<Rightarrow> None | Inr stateData \<Rightarrow> Some stateData))"

text \<open>
  The two tails differ only in how a message is decoded. \<open>range_messages\<close> and
  \<open>tail_loop\<close> are the range loop and the outer loop over any decoder; the loops of the
  source are shown below to be their instances, and the properties of both tails are
  proved once, on the skeleton.
\<close>

fun range_messages ::
  "(XMessage \<Rightarrow> 'r option) \<Rightarrow> ('r list \<Rightarrow> 'r \<Rightarrow> error option) \<Rightarrow> XMessage list \<Rightarrow> 'r list
     \<Rightarrow> 'r list \<times> error option" where
  "range_messages dec send [] sent = (sent, None)"
| "range_messages dec send (msg # msgs) sent =
     (case dec msg of
        None \<Rightarrow> range_messages dec send msgs sent
      | Some r \<Rightarrow>
          (case send sent r of
             Some err \<Rightarrow> (sent, Some err)
           | None \<Rightarrow> range_messages dec send msgs (sent @ [r])))"

fun tail_loop ::
  "(XMessage \<Rightarrow> 'r option) \<Rightarrow> ('r list \<Rightarrow> 'r \<Rightarrow> error option) \<Rightarrow> string \<Rightarrow> world list
     \<Rightarrow> stream_id \<Rightarrow> 'r list \<Rightarrow> 'r list \<times> outcome" where
  "tail_loop dec send streamName [] lastID sent = (sent, Blocked lastID)"
| "tail_loop dec send streamName (w # ws) lastID sent =
     (case XRead w streamName lastID of
        None \<Rightarrow> tail_loop dec send streamName ws lastID sent
      | Some (Inl err) \<Rightarrow> (sent, Returned (Some err))
      | Some (Inr xstream) \<Rightarrow>
          (case xstream of
             [] \<Rightarrow> (sent, Panicked)
           | x0 # _ \<Rightarrow>
               (let messages = Messages x0 in
                if messages = [] then (sent, Panicked)
                else (case range_messages dec send messages sent of
                        (sent', Some err) \<Rightarrow> (sent', Returned (Some err))
                      | (sent', None) \<Rightarrow>
                          if ctx_Done w then (sent', Returned None)
                          else tail_loop dec send streamName ws (ID (last messages)) sent'))))"

section \<open>Producers and a consumer on one store\<close>

text \<open>
  A moment at which the tail reads from the store \<open>client\<close>, with no network fault and no
  cancellation.
\<close>

definition store_world :: "redis \<Rightarrow> world" where
  "store_world client = \<lparr>XRead = store_XRead client, ctx_Done = False\<rparr>"

text \<open>A producer call with its arguments and the outside it meets.\<close>

datatype ('i, 'o, 'st) call =
    CallPushToOperationStream env 'i 'o "'st option"
  | CallSendOperationCompleted env 'i 'o
  | CallPushToLogStream env 'i 'o TFLogLine

fun perform ::
  "'st json \<Rightarrow> ('i \<Rightarrow> 'o \<Rightarrow> string) \<Rightarrow> ('i, 'o, 'st) call \<Rightarrow> redis \<Rightarrow> error option \<times> redis" where
  "perform js gw (CallPushToOperationStream ev infra operation data) client =
     PushToOperationStream js gw ev client infra operation data"
| "perform js gw (CallSendOperationCompleted ev infra operation) client =
     SendOperationCompleted js gw ev client infra operation"
| "perform js gw (CallPushToLogStream ev infra operation data) client =
     PushToLogStream gw ev client infra operation data"

text \<open>The store after a sequence of producer calls, one after the other.\<close>

fun perform_all ::
  "'st json \<Rightarrow> ('i \<Rightarrow> 'o \<Rightarrow> string) \<Rightarrow> ('i, 'o, 'st) call list \<Rightarrow> redis \<Rightarrow> redis" where
  "perform_all js gw [] client = client"
| "perform_all js gw (c # cs) client = perform_all js gw cs (snd (perform js gw c client))"

text \<open>
  A schedule interleaves producers and one consumer: each element is the producer calls
  made since the consumer's pending read was last looked at. \<open>snapshots\<close> gives the store
  at each of these moments.
\<close>

fun snapshots ::
  "'st json \<Rightarrow> ('i \<Rightarrow> 'o \<Rightarrow> string) \<Rightarrow> redis \<Rightarrow> ('i, 'o, 'st) call list list \<Rightarrow> redis list" where
  "snapshots js gw client [] = []"
| "snapshots js gw client (cs # css) =
     perform_all js gw cs client # snapshots js gw (perform_all js gw cs client) css"

text \<open>
  A stream as the store keeps it: IDs strictly increasing, all after \<open>0-0\<close>.
\<close>

definition stream_ok :: "entry list \<Rightarrow> bool" where
  "stream_ok es = (sorted_wrt id_less (map fst es) \<and> list_all (\<lambda>e. id_less (0, 0) (fst e)) es)"

text \<open>
  The consumer as the specification words it: a tail "from a caller-supplied offset", which
  delivers the decodable entries of the stream after that offset, in order.
\<close>

definition tail_from_offset ::
  "(XMessage \<Rightarrow> 'r option) \<Rightarrow> redis \<Rightarrow> string \<Rightarrow> stream_id \<Rightarrow> 'r list" where
  "tail_from_offset dec client stream offset =
     List.map_filter dec
       (map to_XMessage (filter (\<lambda>e. id_less offset (fst e)) (streams client stream)))"

section \<open>Example values\<close>

text \<open>
  A workspace ID derived from an infra and an operation given by name, and a small codec
  over state records that hold a resource ID only: \<open>{id:r}\<close> encodes the record \<open>r\<close>,
  any other object decodes to the zero record (no field it knows), and text that is not an
  object is refused.
\<close>

definition example_GetWorkspaceID :: "string \<Rightarrow> string \<Rightarrow> string" where
  "example_GetWorkspaceID infra operation = infra @ ''-'' @ operation"

definition example_json :: "string json" where
  "example_json =
     \<lparr>Marshal_entry = (\<lambda>e. case TFResourceState e of
                               None \<Rightarrow> Inr ''{}''
                             | Some r \<Rightarrow> Inr (''{id:'' @ r @ ''}'')),
      Marshal_map = (\<lambda>m. case m ''status'' of
                             Some (IString v) \<Rightarrow> Inr (''{status:'' @ v @ ''}'')
                           | _ \<Rightarrow> Inl (Error ''json: unsupported type'')),
      Unmarshal = (\<lambda>s. if take 4 s = ''{id:'' \<and> last s = CHR ''}'' then Inr (butlast (drop 4 s))
                         else if take 1 s = ''{'' then Inr ''''
                         else Inl (Error ''invalid character looking for beginning of value''))\<rparr>"

definition empty_redis :: redis where
  "empty_redis = \<lparr>streams = (\<lambda>_. []), xadds = 0\<rparr>"

text \<open>
  A moment at which the pending read returns the messages \<open>msgs\<close> of the stream asked for,
  and one at which it fails; two sinks, one that accepts every record and one that accepts
  the first record and fails on the second.
\<close>

definition read_returns :: "XMessage list \<Rightarrow> world" where
  "read_returns msgs =
     \<lparr>XRead = (\<lambda>name lastID. Some (Inr [\<lparr>Stream = name, Messages = msgs\<rparr>])), ctx_Done = False\<rparr>"

definition read_fails :: "error \<Rightarrow> world" where
  "read_fails err = \<lparr>XRead = (\<lambda>name lastID. Some (Inl err)), ctx_Done = False\<rparr>"

definition cancelled :: "world \<Rightarrow> world" where
  "cancelled w = w\<lparr>ctx_Done := True\<rparr>"

definition accept_all :: "'r list \<Rightarrow> 'r \<Rightarrow> error option" where
  "accept_all h r = None"

definition fail_on_second :: "error \<Rightarrow> 'r list \<Rightarrow> 'r \<Rightarrow> error option" where
  "fail_on_second err h r = (if length h = 1 then Some err else None)"

definition log_message :: "stream_id \<Rightarrow> string \<Rightarrow> XMessage" where
  "log_message i line = \<lparr>ID = i, Values = [''log'' \<mapsto> IString line]\<rparr>"

definition data_message :: "stream_id \<Rightarrow> string \<Rightarrow> XMessage" where
  "data_message i payload = \<lparr>ID = i, Values = [''data'' \<mapsto> IString payload]\<rparr>"

text \<open>
  A producer call that meets no fault, and the example scenario of the specification: a
  state record is pushed, then a log record, then the completion marker.
\<close>

definition example_env :: env where
  "example_env = \<lparr>time_Now = 7, xadd_fault = None, server_ms = 5\<rparr>"

definition example_line :: TFLogLine where
  "example_line =
     \<lparr>Level = ''INFO'', Timestamp = ''t2'', Message = ''applying'',
      Diagnostic = \<lparr>Detail = ''''\<rparr>\<rparr>"

definition example_scenario :: "(string, string, string) call list" where
  "example_scenario =
     [CallPushToOperationStream example_env ''infra'' ''op'' (Some ''r1''),
      CallPushToLogStream example_env ''infra'' ''op'' example_line,
      CallSendOperationCompleted example_env ''infra'' ''op'']"

text \<open>
  The moment at which the context is cancelled while the read is blocked: the client ends
  the read with the error of the context, and \<open>ctx.Done()\<close> is closed.
\<close>

definition context_canceled :: error where
  "context_canceled = Error ''context canceled''"

definition read_interrupted :: world where
  "read_interrupted = \<lparr>XRead = (\<lambda>name lastID. Some (Inl context_canceled)), ctx_Done = True\<rparr>"

text \<open>
  A codec for a state struct whose only field is a string tagged \<open>status\<close>; the record is
  the value of that field and the zero record is the empty string. An object with the key
  \<open>status\<close> decodes to its value, any other object to the zero record, and text that is
  not an object is refused. The payload of an entry leaves the push time out, which the
  decoder would ignore. \<open>quoted s\<close> is \<open>s\<close> between double quotes.
\<close>

definition quoted :: "string \<Rightarrow> string" where
  "quoted s = CHR 0x22 # s @ [CHR 0x22]"

definition status_json :: "string json" where
  "status_json =
     \<lparr>Marshal_entry = (\<lambda>e. case TFResourceState e of
                               None \<Rightarrow> Inr ''{}''
                             | Some v \<Rightarrow> Inr (''{'' @ quoted ''status'' @ '':'' @ quoted v @ ''}'')),
      Marshal_map = (\<lambda>m. case m ''status'' of
                             Some (IString v) \<Rightarrow>
                               Inr (''{'' @ quoted ''status'' @ '':'' @ quoted v @ ''}'')
                           | _ \<Rightarrow> Inl (Error ''json: unsupported type'')),
      Unmarshal = (\<lambda>s. let key = ''{'' @ quoted ''status'' @ '':'' @ [CHR 0x22] in
                         if take (length key) s = key \<and>
                            drop (length s - 2) s = [CHR 0x22, CHR ''}'']
                         then Inr (take (length s - length key - 2) (drop (length key) s))
                         else if take 1 s = ''{'' then Inr ''''
                         else Inl (Error ''invalid character looking for beginning of value''))\<rparr>"

section \<open>The loops of the source are instances of the skeleton\<close>

lemma range_log_messages_skel:
  "range_log_messages send msgs sent = range_messages log_of send msgs sent"
  by (induction msgs arbitrary: sent)
     (auto simp: log_of_def split: option.splits iface.splits)

lemma range_state_messages_skel:
  "range_state_messages js send msgs sent = range_messages (state_of js) send msgs sent"
  by (induction msgs arbitrary: sent)
     (auto simp: state_of_def split: option.splits iface.splits sum.splits)

lemma logs_loop_skel:
  "logs_loop send name ws lastID sent = tail_loop log_of send name ws lastID sent"
  by (induction ws arbitrary: lastID sent)
     (auto simp: range_log_messages_skel Let_def split: option.splits sum.splits list.splits prod.splits)

lemma state_loop_skel:
  "state_loop js send name ws lastID sent = tail_loop (state_of js) send name ws lastID sent"
  by (induction ws arbitrary: lastID sent)
     (auto simp: range_state_messages_skel Let_def split: option.splits sum.splits list.splits prod.splits)

lemma StreamOperationLogs_skel:
  "StreamOperationLogs gw ws infra operation send =
     tail_loop log_of send (getLogsStreamName gw infra operation) ws (0, 0) []"
  by (simp add: StreamOperationLogs_def logs_loop_skel)

lemma StreamStateUpdate_skel:
  "StreamStateUpdate js gw ws infra operation send =
     tail_loop (state_of js) send (getStateStreamName gw infra operation) ws (0, 0) []"
  by (simp add: StreamStateUpdate_def state_loop_skel)

section \<open>One pass of the loop\<close>

text \<open>
  What one moment does to a tail, case by case, and how a run over a list of moments splits
  at a point where the tail is blocked.
\<close>

lemma tail_loop_blocked_moment:
  "XRead w name lastID = None \<Longrightarrow>
   tail_loop dec send name (w # ws) lastID sent = tail_loop dec send name ws lastID sent"
  by simp

lemma tail_loop_read_error:
  "XRead w name lastID = Some (Inl err) \<Longrightarrow>
   tail_loop dec send name (w # ws) lastID sent = (sent, Returned (Some err))"
  by simp

lemma tail_loop_panics:
  "XRead w name lastID = Some (Inr xs) \<Longrightarrow> xs = [] \<or> Messages (hd xs) = [] \<Longrightarrow>
   tail_loop dec send name (w # ws) lastID sent = (sent, Panicked)"
  by (cases xs) auto

lemma tail_loop_sink_error:
  assumes "XRead w name lastID = Some (Inr (x0 # xs))" and "Messages x0 \<noteq> []"
    and "range_messages dec send (Messages x0) sent = (sent', Some err)"
  shows "tail_loop dec send name (w # ws) lastID sent = (sent', Returned (Some err))"
  using assms by simp

lemma tail_loop_cancelled:
  assumes "XRead w name lastID = Some (Inr (x0 # xs))" and "Messages x0 \<noteq> []"
    and "range_messages dec send (Messages x0) sent = (sent', None)" and "ctx_Done w"
  shows "tail_loop dec send name (w # ws) lastID sent = (sent', Returned None)"
  using assms by simp

lemma tail_loop_continues:
  assumes "XRead w name lastID = Some (Inr (x0 # xs))" and "Messages x0 \<noteq> []"
    and "range_messages dec send (Messages x0) sent = (sent', None)" and "\<not> ctx_Done w"
  shows "tail_loop dec send name (w # ws) lastID sent =
         tail_loop dec send name ws (ID (last (Messages x0))) sent'"
  using assms by simp

lemma tail_loop_batch_accepted:
  assumes "XRead w name lastID = Some (Inr (\<lparr>Stream = s, Messages = msgs\<rparr> # rest))"
    and "msgs \<noteq> []" and "range_messages dec send msgs sent = (sent', None)"
    and "\<not> ctx_Done w"
  shows "tail_loop dec send name (w # ws) lastID sent =
         tail_loop dec send name ws (ID (last msgs)) sent'"
  using assms by simp

lemma moment_cases [case_names blocked read_error panic sink_error cancelled continues]:
  obtains "XRead w name lastID = None"
  | err where "XRead w name lastID = Some (Inl err)"
  | xs where "XRead w name lastID = Some (Inr xs)" "xs = [] \<or> Messages (hd xs) = []"
  | x0 xs sent' err where "XRead w name lastID = Some (Inr (x0 # xs))" "Messages x0 \<noteq> []"
      "range_messages dec send (Messages x0) sent = (sent', Some err)"
  | x0 xs sent' where "XRead w name lastID = Some (Inr (x0 # xs))" "Messages x0 \<noteq> []"
      "range_messages dec send (Messages x0) sent = (sent', None)" "ctx_Done w"
  | x0 xs sent' where "XRead w name lastID = Some (Inr (x0 # xs))" "Messages x0 \<noteq> []"
      "range_messages dec send (Messages x0) sent = (sent', None)" "\<not> ctx_Done w"
proof (cases "XRead w name lastID")
  case None
  then show ?thesis by (rule that(1))
next
  case (Some reply)
  show ?thesis
  proof (cases reply)
    case (Inl err)
    with Some show ?thesis by (intro that(2)) simp
  next
    case (Inr xs)
    show ?thesis
    proof (cases "xs = [] \<or> Messages (hd xs) = []")
      case True
      with Some Inr show ?thesis by (intro that(3)) simp_all
    next
      case False
      then obtain x0 xs' where xs: "xs = x0 # xs'" and ne: "Messages x0 \<noteq> []"
        by (cases xs) auto
      obtain sent' e where rm: "range_messages dec send (Messages x0) sent = (sent', e)"
        by (cases "range_messages dec send (Messages x0) sent")
      show ?thesis
      proof (cases e)
        case None
        with Some Inr xs ne rm show ?thesis
          by (cases "ctx_Done w") (auto intro: that(5) that(6))
      next
        case (Some err)
        with \<open>XRead w name lastID = Some reply\<close> Inr xs ne rm show ?thesis
          by (auto intro: that(4))
      qed
    qed
  qed
qed

lemma tail_loop_append:
  "tail_loop dec send name ws1 lastID sent = (sent1, Blocked lastID1) \<Longrightarrow>
   tail_loop dec send name (ws1 @ ws2) lastID sent = tail_loop dec send name ws2 lastID1 sent1"
proof (induction ws1 arbitrary: lastID sent)
  case Nil
  then show ?case by simp
next
  case (Cons w ws1)
  show ?case
  proof (cases rule: moment_cases [where w = w and name = name and lastID = lastID and dec = dec
      and send = send and sent = sent])
    case blocked
    with Cons show ?thesis by simp
  next
    case (read_error err)
    with Cons.prems show ?thesis by simp
  next
    case (panic xs)
    with Cons.prems show ?thesis by (simp del: tail_loop.simps add: tail_loop_panics)
  next
    case (sink_error x0 xs sent' err)
    with Cons.prems show ?thesis by simp
  next
    case (cancelled x0 xs sent')
    with Cons.prems show ?thesis by simp
  next
    case (continues x0 xs sent')
    with Cons.prems have "tail_loop dec send name ws1 (ID (last (Messages x0))) sent' =
        (sent1, Blocked lastID1)"
      by simp
    from Cons.IH [OF this] continues show ?thesis by simp
  qed
qed

lemma StreamOperationLogs_append:
  "StreamOperationLogs gw ws1 infra operation send = (sent1, Blocked lastID1) \<Longrightarrow>
   StreamOperationLogs gw (ws1 @ ws2) infra operation send =
     tail_loop log_of send (getLogsStreamName gw infra operation) ws2 lastID1 sent1"
  by (simp add: StreamOperationLogs_def logs_loop_skel tail_loop_append)

lemma StreamStateUpdate_append:
  "StreamStateUpdate js gw ws1 infra operation send = (sent1, Blocked lastID1) \<Longrightarrow>
   StreamStateUpdate js gw (ws1 @ ws2) infra operation send =
     tail_loop (state_of js) send (getStateStreamName gw infra operation) ws2 lastID1 sent1"
  by (simp add: StreamStateUpdate_def state_loop_skel tail_loop_append)

section \<open>The range loop and the sink\<close>

lemma map_filter_append: "List.map_filter f (xs @ ys) = List.map_filter f xs @ List.map_filter f ys"
  by (simp add: List.map_filter_def)

lemma map_filter_nonempty: "List.map_filter dec msgs = rs \<Longrightarrow> k < length rs \<Longrightarrow> msgs \<noteq> []"
  by (auto simp: List.map_filter_simps)

lemma range_messages_accepting:
  "(\<And>h r. send h r = None) \<Longrightarrow>
   range_messages dec send msgs sent = (sent @ List.map_filter dec msgs, None)"
  by (induction msgs arbitrary: sent) (auto simp: List.map_filter_simps split: option.splits)

lemma range_messages_sink_error:
  "List.map_filter dec msgs = rs \<Longrightarrow> k < length rs \<Longrightarrow>
   (\<And>j. j < k \<Longrightarrow> send (sent @ take j rs) (rs ! j) = None) \<Longrightarrow>
   send (sent @ take k rs) (rs ! k) = Some err \<Longrightarrow>
   range_messages dec send msgs sent = (sent @ take k rs, Some err)"
proof (induction msgs arbitrary: sent rs k)
  case Nil
  then show ?case by (simp add: List.map_filter_simps)
next
  case (Cons m msgs)
  show ?case
  proof (cases "dec m")
    case None
    with Cons.prems have "List.map_filter dec msgs = rs"
      by (simp add: List.map_filter_simps)
    from Cons.IH [OF this Cons.prems(2) Cons.prems(3) Cons.prems(4)] None
    show ?thesis by simp
  next
    case (Some r)
    with Cons.prems(1) obtain rs' where rs: "rs = r # rs'" and rs': "List.map_filter dec msgs = rs'"
      by (auto simp: List.map_filter_simps)
    show ?thesis
    proof (cases k)
      case 0
      with Cons.prems(4) rs Some show ?thesis by simp
    next
      case (Suc k')
      have acc: "send sent r = None"
        using Cons.prems(3) [of 0] Suc rs by simp
      have k': "k' < length rs'"
        using Cons.prems(2) Suc rs by simp
      have before: "send ((sent @ [r]) @ take j rs') (rs' ! j) = None" if "j < k'" for j
        using Cons.prems(3) [of "Suc j"] that Suc rs by simp
      have at: "send ((sent @ [r]) @ take k' rs') (rs' ! k') = Some err"
        using Cons.prems(4) Suc rs by simp
      from Cons.IH [OF rs' k' before at] Some acc Suc rs
      show ?thesis by simp
    qed
  qed
qed

lemma range_messages_error_from_sink:
  "range_messages dec send msgs sent = (sent', Some err) \<Longrightarrow> \<exists>h r. send h r = Some err"
  by (induction msgs arbitrary: sent) (auto split: option.splits)

lemma tail_loop_sink_fails_at:
  assumes rd: "XRead w name lastID = Some (Inr (x # xs))"
    and rs: "List.map_filter dec (Messages x) = rs" and k: "k < length rs"
    and before: "\<forall>j<k. send (sent @ take j rs) (rs ! j) = None"
    and at: "send (sent @ take k rs) (rs ! k) = Some err"
  shows "tail_loop dec send name (w # ws) lastID sent = (sent @ take k rs, Returned (Some err))"
proof -
  have ne: "Messages x \<noteq> []"
    using rs k by (rule map_filter_nonempty)
  have "range_messages dec send (Messages x) sent = (sent @ take k rs, Some err)"
    using rs k before at by (intro range_messages_sink_error) auto
  with rd ne show ?thesis
    by (rule tail_loop_sink_error)
qed

lemma tail_loop_three:
  assumes rd: "XRead w name lastID = Some (Inr (\<lparr>Stream = s, Messages = [m, bad, m']\<rparr> # xs))"
    and m: "dec m = Some r" and bad: "dec bad = None" and m': "dec m' = Some r'"
    and acc: "send sent r = None" "send (sent @ [r]) r' = None"
    and nd: "\<not> ctx_Done w"
  shows "tail_loop dec send name [w] lastID sent = (sent @ [r, r'], Blocked (ID m'))"
proof -
  let ?x = "\<lparr>Stream = s, Messages = [m, bad, m']\<rparr>"
  have ne: "Messages ?x \<noteq> []" by simp
  have rm: "range_messages dec send (Messages ?x) sent = (sent @ [r, r'], None)"
    using m bad m' acc by simp
  from tail_loop_continues [OF rd ne rm nd] show ?thesis by simp
qed

lemma tail_loop_no_panic:
  "(\<And>w l xs. w \<in> set ws \<Longrightarrow> XRead w name l = Some (Inr xs) \<Longrightarrow> xs \<noteq> [] \<and> Messages (hd xs) \<noteq> []) \<Longrightarrow>
   snd (tail_loop dec send name ws lastID sent) \<noteq> Panicked"
proof (induction ws arbitrary: lastID sent)
  case Nil
  then show ?case by simp
next
  case (Cons w ws)
  have ih: "snd (tail_loop dec send name ws l s) \<noteq> Panicked" for l s
    using Cons.prems by (intro Cons.IH) auto
  show ?case
  proof (cases rule: moment_cases [where w = w and name = name and lastID = lastID and dec = dec
      and send = send and sent = sent])
    case (panic xs)
    with Cons.prems [of w lastID xs] show ?thesis by auto
  qed (use ih in simp_all)
qed

lemma tail_loop_returned:
  "snd (tail_loop dec send name ws lastID sent) = Returned r \<Longrightarrow>
   (case r of
      None \<Rightarrow> \<exists>w \<in> set ws. ctx_Done w
    | Some err \<Rightarrow> (\<exists>w \<in> set ws. \<exists>l. XRead w name l = Some (Inl err)) \<or> (\<exists>h x. send h x = Some err))"
proof (induction ws arbitrary: lastID sent)
  case Nil
  then show ?case by simp
next
  case (Cons w ws)
  show ?case
  proof (cases rule: moment_cases [where w = w and name = name and lastID = lastID and dec = dec
      and send = send and sent = sent])
    case blocked
    with Cons.prems have "snd (tail_loop dec send name ws lastID sent) = Returned r" by simp
    from Cons.IH [OF this] show ?thesis by (auto split: option.splits)
  next
    case (read_error err)
    with Cons.prems have "r = Some err" by simp
    moreover have "\<exists>w' \<in> set (w # ws). \<exists>l. XRead w' name l = Some (Inl err)"
      using read_error by (intro bexI [of _ w] exI [of _ lastID]) simp_all
    ultimately show ?thesis by simp
  next
    case (panic xs)
    with Cons.prems show ?thesis by (simp del: tail_loop.simps add: tail_loop_panics)
  next
    case (sink_error x0 xs sent' err)
    with Cons.prems have "r = Some err" by simp
    moreover have "\<exists>h x. send h x = Some err"
      using sink_error by (auto dest: range_messages_error_from_sink)
    ultimately show ?thesis by simp
  next
    case (cancelled x0 xs sent')
    with Cons.prems have "r = None" by simp
    with cancelled show ?thesis by simp
  next
    case (continues x0 xs sent')
    with Cons.prems have "snd (tail_loop dec send name ws (ID (last (Messages x0))) sent') = Returned r"
      by simp
    from Cons.IH [OF this] show ?thesis by (auto split: option.splits)
  qed
qed

section \<open>Entry IDs and streams\<close>

lemma id_less_irrefl: "\<not> id_less a a"
  by (simp add: id_less_def)

lemma id_less_trans: "id_less a b \<Longrightarrow> id_less b c \<Longrightarrow> id_less a c"
  by (auto simp: id_less_def)

lemma id_less_asym: "id_less a b \<Longrightarrow> \<not> id_less b a"
  by (auto simp: id_less_def)

lemma auto_id_greater: "id_less (last_id es) (auto_id now es)"
  by (simp add: auto_id_def id_less_def)

lemma stream_ok_Nil: "stream_ok []"
  by (simp add: stream_ok_def)

lemma sorted_ids_last:
  "sorted_wrt id_less ids \<Longrightarrow> i \<in> set ids \<Longrightarrow> i = last ids \<or> id_less i (last ids)"
  by (induction ids rule: rev_induct) (auto simp: sorted_wrt_append)

lemma stream_ok_below_last:
  assumes "stream_ok es" "e \<in> set es"
  shows "\<not> id_less (last_id es) (fst e)"
proof -
  from assms have ne: "es \<noteq> []" by auto
  from assms have "fst e \<in> set (map fst es)" by simp
  with assms(1) have "fst e = last (map fst es) \<or> id_less (fst e) (last (map fst es))"
    unfolding stream_ok_def by (blast dest: sorted_ids_last)
  with ne show ?thesis
    by (auto simp: last_id_def last_map id_less_irrefl dest: id_less_asym)
qed

lemma stream_ok_append:
  "stream_ok (a @ b) \<Longrightarrow> stream_ok a"
  by (simp add: stream_ok_def sorted_wrt_append)

lemma stream_ok_after_prefix:
  assumes "stream_ok (a @ b)" "e \<in> set b"
  shows "id_less (last_id a) (fst e)"
proof (cases "a = []")
  case True
  with assms show ?thesis
    by (auto simp: last_id_def stream_ok_def list_all_iff)
next
  case False
  then have "last a \<in> set a" by simp
  with assms show ?thesis
    using False by (auto simp: last_id_def stream_ok_def sorted_wrt_append)
qed

lemma filter_after_prefix:
  assumes "stream_ok (a @ b)"
  shows "filter (\<lambda>e. id_less (last_id a) (fst e)) (a @ b) = b"
proof -
  have "filter (\<lambda>e. id_less (last_id a) (fst e)) a = []"
    using stream_ok_below_last [OF stream_ok_append [OF assms]] by (simp add: filter_empty_conv)
  moreover have "filter (\<lambda>e. id_less (last_id a) (fst e)) b = b"
    using stream_ok_after_prefix [OF assms] by (simp add: filter_id_conv)
  ultimately show ?thesis by simp
qed

lemma stream_ok_snoc:
  assumes "stream_ok es"
  shows "stream_ok (es @ [(auto_id now es, v)])"
proof -
  have "id_less (fst e) (auto_id now es)" if "e \<in> set es" for e
  proof -
    from that assms have "fst e = last_id es \<or> id_less (fst e) (last_id es)"
      using sorted_ids_last [of "map fst es" "fst e"]
      by (auto simp: stream_ok_def last_id_def last_map)
    then show ?thesis
      using auto_id_greater [of es now] by (auto dest: id_less_trans)
  qed
  moreover have "id_less (0, 0) (auto_id now es)"
    by (auto simp: auto_id_def id_less_def)
  ultimately show ?thesis
    using assms by (auto simp: stream_ok_def sorted_wrt_append)
qed

lemma last_id_snoc: "last_id (es @ [(i, v)]) = i"
  by (simp add: last_id_def)

section \<open>What the producers do to the store\<close>

lemma XAdd_failed:
  "XAdd (Some err) now client stream vals = (Inl err, client\<lparr>xadds := Suc (xadds client)\<rparr>)"
  by (simp add: XAdd_def)

lemma XAdd_done:
  "XAdd None now client stream vals =
     (Inr (auto_id now (streams client stream)),
      client\<lparr>streams := (streams client)
                 (stream := streams client stream @ [(auto_id now (streams client stream), vals)]),
             xadds := Suc (xadds client)\<rparr>)"
  by (simp add: XAdd_def Let_def)

lemma XAdd_other_stream:
  "s \<noteq> stream \<Longrightarrow> streams (snd (XAdd fault now client stream vals)) s = streams client s"
  by (cases fault) (simp_all add: XAdd_failed XAdd_done)

lemma XAdd_extends:
  "\<exists>more. streams (snd (XAdd fault now client stream vals)) s = streams client s @ more"
  by (cases fault) (simp_all add: XAdd_failed XAdd_done)

lemma XAdd_stream_ok:
  "stream_ok (streams client s) \<Longrightarrow> stream_ok (streams (snd (XAdd fault now client stream vals)) s)"
  by (cases fault) (auto simp: XAdd_failed XAdd_done stream_ok_snoc)

lemma XAdd_xadds:
  "xadds (snd (XAdd fault now client stream vals)) = Suc (xadds client)"
  by (cases fault) (simp_all add: XAdd_failed XAdd_done)

lemma state_name_not_logs_name:
  "getStateStreamName gw infra operation \<noteq> getLogsStreamName gw' infra' operation'"
proof
  assume "getStateStreamName gw infra operation = getLogsStreamName gw' infra' operation'"
  then have "last (gw infra operation @ ''-state'') = last (gw' infra' operation' @ ''-logs'')"
    by (simp add: getStateStreamName_def getLogsStreamName_def)
  then show False by simp
qed

lemma PushToLogStream_snd:
  "snd (PushToLogStream gw ev client infra operation line) =
   snd (XAdd (xadd_fault ev) (server_ms ev) client (getLogsStreamName gw infra operation)
          [''log'' \<mapsto> getLogString line])"
  by (simp add: PushToLogStream_def split: prod.splits sum.splits)

lemma PushToLogStream_fst:
  "fst (PushToLogStream gw ev client infra operation line) = xadd_fault ev"
  by (cases "xadd_fault ev") (simp_all add: PushToLogStream_def XAdd_failed XAdd_done Let_def)

lemma PushToOperationStream_marshal_failed:
  "Marshal_entry js \<lparr>TFResourceState = data, PushedAt = time_Now ev\<rparr> = Inl err \<Longrightarrow>
   PushToOperationStream js gw ev client infra operation data = (Some err, client)"
  by (simp add: PushToOperationStream_def)

lemma PushToOperationStream_marshalled:
  "Marshal_entry js \<lparr>TFResourceState = data, PushedAt = time_Now ev\<rparr> = Inr b \<Longrightarrow>
   PushToOperationStream js gw ev client infra operation data =
     (xadd_fault ev,
      snd (XAdd (xadd_fault ev) (server_ms ev) client (getStateStreamName gw infra operation)
             [''id'' \<mapsto> gw infra operation, ''data'' \<mapsto> b]))"
  by (cases "xadd_fault ev") (simp_all add: PushToOperationStream_def XAdd_failed XAdd_done Let_def)

lemma SendOperationCompleted_marshal_failed:
  "Marshal_map js [''status'' \<mapsto> IString ''OPERATION_COMPLETED''] = Inl err \<Longrightarrow>
   SendOperationCompleted js gw ev client infra operation = (Some err, client)"
  by (simp add: SendOperationCompleted_def)

lemma SendOperationCompleted_marshalled:
  "Marshal_map js [''status'' \<mapsto> IString ''OPERATION_COMPLETED''] = Inr b \<Longrightarrow>
   SendOperationCompleted js gw ev client infra operation =
     (xadd_fault ev,
      snd (XAdd (xadd_fault ev) (server_ms ev) client (getStateStreamName gw infra operation)
             [''id'' \<mapsto> gw infra operation, ''data'' \<mapsto> b]))"
  by (cases "xadd_fault ev") (simp_all add: SendOperationCompleted_def XAdd_failed XAdd_done Let_def)

lemma getLogString_layout:
  "getLogString line =
     ''['' @ Level line @ ''] ['' @ Timestamp line @ ''] '' @ Message line @
     (if Detail (Diagnostic line) = '''' then '''' else '': '' @ Detail (Diagnostic line)) @
     [CHR 0x0A]"
  by (simp add: getLogString_def)

lemma perform_streams:
  "\<exists>stream fault now vals.
     streams (snd (perform js gw c client)) = streams client \<or>
     streams (snd (perform js gw c client)) =
       streams (snd (XAdd fault now client stream vals))"
proof (cases c)
  case (CallPushToOperationStream ev infra operation data)
  then show ?thesis
    by (cases "Marshal_entry js \<lparr>TFResourceState = data, PushedAt = time_Now ev\<rparr>")
       (auto simp: PushToOperationStream_marshal_failed PushToOperationStream_marshalled)
next
  case (CallSendOperationCompleted ev infra operation)
  then show ?thesis
    by (cases "Marshal_map js [''status'' \<mapsto> IString ''OPERATION_COMPLETED'']")
       (auto simp: SendOperationCompleted_marshal_failed SendOperationCompleted_marshalled)
next
  case (CallPushToLogStream ev infra operation line)
  then show ?thesis
    by (auto simp: PushToLogStream_snd)
qed

lemma perform_extends:
  "prefix (streams client n) (streams (snd (perform js gw c client)) n)"
  using perform_streams [of js gw c client] XAdd_extends [of _ _ client _ _ n]
  by (auto simp: prefix_def)

lemma perform_stream_ok:
  "stream_ok (streams client n) \<Longrightarrow> stream_ok (streams (snd (perform js gw c client)) n)"
  using perform_streams [of js gw c client] XAdd_stream_ok [of client n]
  by auto

lemma perform_all_extends:
  "prefix (streams client n) (streams (perform_all js gw cs client) n)"
proof (induction cs arbitrary: client)
  case Nil
  then show ?case by simp
next
  case (Cons c cs)
  have "prefix (streams client n) (streams (snd (perform js gw c client)) n)"
    by (rule perform_extends)
  also have "prefix \<dots> (streams (perform_all js gw cs (snd (perform js gw c client))) n)"
    by (rule Cons.IH)
  finally show ?case by simp
qed

lemma perform_all_stream_ok:
  "stream_ok (streams client n) \<Longrightarrow> stream_ok (streams (perform_all js gw cs client) n)"
  by (induction cs arbitrary: client) (simp_all add: perform_stream_ok)

lemma perform_all_append:
  "perform_all js gw (cs @ ds) client = perform_all js gw ds (perform_all js gw cs client)"
  by (induction cs arbitrary: client) simp_all

section \<open>A tail that reads from the store\<close>

text \<open>
  While producers append, the stream a consumer reads only grows, and each read returns
  what was appended since the last one: the tail has delivered the decodable entries of
  the stream as it was at its last read.
\<close>

lemma store_XRead_blocked:
  "streams client name = seen \<Longrightarrow> stream_ok seen \<Longrightarrow>
   store_XRead client name (last_id seen) = None"
  using filter_after_prefix [of seen "[]"] by (simp add: store_XRead_def)

lemma store_XRead_new:
  "streams client name = seen @ rest \<Longrightarrow> stream_ok (seen @ rest) \<Longrightarrow> rest \<noteq> [] \<Longrightarrow>
   store_XRead client name (last_id seen) =
     Some (Inr [\<lparr>Stream = name, Messages = map to_XMessage rest\<rparr>])"
  using filter_after_prefix [of seen rest] by (simp add: store_XRead_def)

lemma tail_loop_store_chain:
  assumes acc: "\<And>h r. send h r = None"
  shows "\<forall>db \<in> set dbs. stream_ok (streams db name) \<and> prefix seen (streams db name) \<Longrightarrow>
         sorted_wrt (\<lambda>a b. prefix (streams a name) (streams b name)) dbs \<Longrightarrow>
         tail_loop dec send name (map store_world dbs) (last_id seen)
           (List.map_filter dec (map to_XMessage seen)) =
         (List.map_filter dec (map to_XMessage (if dbs = [] then seen else streams (last dbs) name)),
          Blocked (last_id (if dbs = [] then seen else streams (last dbs) name)))"
proof (induction dbs arbitrary: seen)
  case Nil
  then show ?case by simp
next
  case (Cons db dbs)
  from Cons.prems(1) obtain rest where es: "streams db name = seen @ rest"
    and ok: "stream_ok (seen @ rest)"
    by (auto simp: prefix_def)
  show ?case
  proof (cases "rest = []")
    case True
    with es ok have "XRead (store_world db) name (last_id seen) = None"
      by (simp add: store_world_def store_XRead_blocked)
    then have "tail_loop dec send name (map store_world (db # dbs)) (last_id seen)
                 (List.map_filter dec (map to_XMessage seen)) =
               tail_loop dec send name (map store_world dbs) (last_id seen)
                 (List.map_filter dec (map to_XMessage seen))"
      by simp
    also have "\<dots> = (List.map_filter dec
                      (map to_XMessage (if dbs = [] then seen else streams (last dbs) name)),
                    Blocked (last_id (if dbs = [] then seen else streams (last dbs) name)))"
      using Cons.prems by (intro Cons.IH) auto
    finally show ?thesis
      using True es by simp
  next
    case False
    let ?sent' = "List.map_filter dec (map to_XMessage seen) @ List.map_filter dec (map to_XMessage rest)"
    have rd: "XRead (store_world db) name (last_id seen) =
                Some (Inr [\<lparr>Stream = name, Messages = map to_XMessage rest\<rparr>])"
      using es ok False by (simp add: store_world_def store_XRead_new)
    have rm: "range_messages dec send (map to_XMessage rest)
                (List.map_filter dec (map to_XMessage seen)) = (?sent', None)"
      using acc by (rule range_messages_accepting)
    have nd: "\<not> ctx_Done (store_world db)"
      by (simp add: store_world_def)
    have lastid: "ID (last (map to_XMessage rest)) = last_id (seen @ rest)"
      using False by (simp add: last_map last_id_def to_XMessage_def)
    have "tail_loop dec send name (map store_world (db # dbs)) (last_id seen)
            (List.map_filter dec (map to_XMessage seen)) =
          tail_loop dec send name (map store_world dbs) (last_id (seen @ rest))
            (List.map_filter dec (map to_XMessage (seen @ rest)))"
      using tail_loop_batch_accepted [OF rd _ rm nd, of "map store_world dbs"] False lastid
      by (simp add: map_filter_append)
    also have "\<dots> = (List.map_filter dec (map to_XMessage
                      (if dbs = [] then seen @ rest else streams (last dbs) name)),
                    Blocked (last_id (if dbs = [] then seen @ rest else streams (last dbs) name)))"
      using Cons.prems es by (intro Cons.IH) auto
    finally show ?thesis
      using es by simp
  qed
qed

lemma snapshots_above:
  "stream_ok (streams client n) \<Longrightarrow> prefix seen (streams client n) \<Longrightarrow>
   d \<in> set (snapshots js gw client sched) \<Longrightarrow>
   stream_ok (streams d n) \<and> prefix seen (streams d n)"
proof (induction sched arbitrary: client)
  case Nil
  then show ?case by simp
next
  case (Cons cs sched)
  let ?c = "perform_all js gw cs client"
  have ok: "stream_ok (streams ?c n)"
    using Cons.prems(1) by (rule perform_all_stream_ok)
  have pre: "prefix seen (streams ?c n)"
    using Cons.prems(2) perform_all_extends [of client n js gw cs] by (rule prefix_order.trans)
  from Cons.prems(3) have "d = ?c \<or> d \<in> set (snapshots js gw ?c sched)" by simp
  then show ?case
    using ok pre Cons.IH [OF ok pre] by blast
qed

lemma snapshots_chain:
  "stream_ok (streams client n) \<Longrightarrow>
   sorted_wrt (\<lambda>a b. prefix (streams a n) (streams b n)) (snapshots js gw client sched)"
proof (induction sched arbitrary: client)
  case Nil
  then show ?case by simp
next
  case (Cons cs sched)
  let ?c = "perform_all js gw cs client"
  have ok: "stream_ok (streams ?c n)"
    using Cons.prems by (rule perform_all_stream_ok)
  have "prefix (streams ?c n) (streams d n)" if "d \<in> set (snapshots js gw ?c sched)" for d
    using snapshots_above [OF ok prefix_order.refl that] by simp
  with Cons.IH [OF ok] show ?case by simp
qed

lemma last_snapshots:
  "sched \<noteq> [] \<Longrightarrow> last (snapshots js gw client sched) = perform_all js gw (concat sched) client"
proof (induction sched arbitrary: client)
  case Nil
  then show ?case by simp
next
  case (Cons cs sched)
  show ?case
  proof (cases "sched = []")
    case True
    then show ?thesis by simp
  next
    case False
    then have "snapshots js gw (perform_all js gw cs client) sched \<noteq> []"
      by (cases sched) simp_all
    with Cons.IH [OF False] show ?thesis
      by (simp add: perform_all_append)
  qed
qed

lemma tail_loop_snapshots:
  assumes acc: "\<And>h r. send h r = None" and ok: "stream_ok (streams client n)"
    and ne: "sched \<noteq> []"
  shows "tail_loop dec send n (map store_world (snapshots js gw client sched)) (0, 0) [] =
         (List.map_filter dec (map to_XMessage (streams (perform_all js gw (concat sched) client) n)),
          Blocked (last_id (streams (perform_all js gw (concat sched) client) n)))"
proof -
  let ?dbs = "snapshots js gw client sched"
  have nonempty: "?dbs \<noteq> []"
    using ne by (cases sched) simp_all
  have above: "\<forall>db \<in> set ?dbs. stream_ok (streams db n) \<and> prefix [] (streams db n)"
    using snapshots_above [OF ok, where seen = "[]" and js = js and gw = gw and sched = sched]
    by simp
  have chain: "sorted_wrt (\<lambda>a b. prefix (streams a n) (streams b n)) ?dbs"
    using ok by (rule snapshots_chain)
  from tail_loop_store_chain [where send = send and dec = dec, OF acc above chain]
  show ?thesis
    using nonempty by (simp add: last_id_def List.map_filter_simps last_snapshots [OF ne])
qed

lemma tail_loop_one_store:
  assumes acc: "\<And>h r. send h r = None" and ok: "stream_ok (streams client n)"
  shows "tail_loop dec send n [store_world client] (0, 0) [] =
         (List.map_filter dec (map to_XMessage (streams client n)),
          Blocked (last_id (streams client n)))"
proof -
  have "\<forall>db \<in> set [client]. stream_ok (streams db n) \<and> prefix [] (streams db n)"
    using ok by simp
  moreover have "sorted_wrt (\<lambda>a b. prefix (streams a n) (streams b n)) [client]"
    by simp
  ultimately show ?thesis
    using tail_loop_store_chain [where send = send and dec = dec and dbs = "[client]"
        and seen = "[]" and name = n, OF acc]
    by (simp add: last_id_def List.map_filter_simps)
qed

lemma tail_from_beginning:
  "stream_ok (streams client n) \<Longrightarrow>
   tail_from_offset dec client n (0, 0) = List.map_filter dec (map to_XMessage (streams client n))"
  using filter_after_prefix [of "[]" "streams client n"]
  by (simp add: tail_from_offset_def last_id_def)

lemma state_of_pushed:
  "Unmarshal js b = Inr d \<Longrightarrow>
   state_of js (to_XMessage (i, [''id'' \<mapsto> w, ''data'' \<mapsto> b])) = Some d"
  by (simp add: state_of_def to_XMessage_def)

lemma log_of_pushed: "log_of (to_XMessage (i, [''log'' \<mapsto> l])) = Some l"
  by (simp add: log_of_def to_XMessage_def)

lemma push_decoded:
  assumes "xadd_fault ev = None"
    and "Marshal_entry js \<lparr>TFResourceState = Some d, PushedAt = time_Now ev\<rparr> = Inr b"
    and "Unmarshal js b = Inr d"
  shows "List.map_filter (state_of js) (map to_XMessage
           (streams (snd (PushToOperationStream js gw ev client infra operation (Some d)))
              (getStateStreamName gw infra operation))) =
         List.map_filter (state_of js) (map to_XMessage
           (streams client (getStateStreamName gw infra operation))) @ [d]"
  using assms
  by (simp add: PushToOperationStream_marshalled XAdd_done map_filter_append state_of_pushed
        List.map_filter_simps)

lemma completed_decoded:
  assumes "xadd_fault ev = None"
    and "Marshal_map js [''status'' \<mapsto> IString ''OPERATION_COMPLETED''] = Inr b"
    and "Unmarshal js b = Inr d"
  shows "List.map_filter (state_of js) (map to_XMessage
           (streams (snd (SendOperationCompleted js gw ev client infra operation))
              (getStateStreamName gw infra operation))) =
         List.map_filter (state_of js) (map to_XMessage
           (streams client (getStateStreamName gw infra operation))) @ [d]"
  using assms
  by (simp add: SendOperationCompleted_marshalled XAdd_done map_filter_append state_of_pushed
        List.map_filter_simps)

lemma pushes_decoded:
  assumes "\<forall>(ev, d) \<in> set ps. xadd_fault ev = None \<and>
       (\<exists>b. Marshal_entry js \<lparr>TFResourceState = Some d, PushedAt = time_Now ev\<rparr> = Inr b \<and>
            Unmarshal js b = Inr d)"
  shows "List.map_filter (state_of js) (map to_XMessage
           (streams (perform_all js gw
                       (map (\<lambda>(ev, d). CallPushToOperationStream ev infra operation (Some d)) ps)
                       client)
              (getStateStreamName gw infra operation))) =
         List.map_filter (state_of js) (map to_XMessage
           (streams client (getStateStreamName gw infra operation))) @ map snd ps"
  using assms
proof (induction ps arbitrary: client)
  case Nil
  then show ?case by simp
next
  case (Cons p ps)
  obtain ev d where p: "p = (ev, d)" by (cases p)
  from Cons.prems p obtain b where ok: "xadd_fault ev = None"
      "Marshal_entry js \<lparr>TFResourceState = Some d, PushedAt = time_Now ev\<rparr> = Inr b"
      "Unmarshal js b = Inr d"
    by auto
  from Cons.prems have rest: "\<forall>(ev, d) \<in> set ps. xadd_fault ev = None \<and>
       (\<exists>b. Marshal_entry js \<lparr>TFResourceState = Some d, PushedAt = time_Now ev\<rparr> = Inr b \<and>
            Unmarshal js b = Inr d)"
    by simp
  show ?case
    using Cons.IH [OF rest, of "snd (PushToOperationStream js gw ev client infra operation (Some d))"]
      push_decoded [OF ok, of gw client infra operation]
    by (simp add: p)
qed

section \<open>Claims\<close>

text \<open>
  C1. On a state stream that starts empty, let \<open>N\<close> calls of \<open>PushToOperationStream\<close>
  for one operation succeed (the payload is marshalled and the append meets no fault),
  followed or not by a successful \<open>SendOperationCompleted\<close>, and let the decoder give back
  each pushed record from its payload. A \<open>StreamStateUpdate\<close> consumer with an accepting
  sink, reading from the store at any moments during and after these calls, the last one
  after all of them, has delivered exactly the \<open>N\<close> records, in push order, followed by
  the record the completion marker decodes to when the marker was sent.
\<close>

theorem state_tail_delivers_pushes:
  assumes fresh: "streams client (getStateStreamName gw infra operation) = []"
    and pushed: "\<forall>(ev, d) \<in> set pushes. xadd_fault ev = None \<and>
       (\<exists>b. Marshal_entry js \<lparr>TFResourceState = Some d, PushedAt = time_Now ev\<rparr> = Inr b \<and>
            Unmarshal js b = Inr d)"
    and completion: "completed \<longrightarrow> xadd_fault cev = None \<and>
       (\<exists>b. Marshal_map js [''status'' \<mapsto> IString ''OPERATION_COMPLETED''] = Inr b \<and>
            Unmarshal js b = Inr marker)"
    and sink: "\<forall>h r. send h r = None"
    and sched: "concat sched =
       map (\<lambda>(ev, d). CallPushToOperationStream ev infra operation (Some d)) pushes @
       (if completed then [CallSendOperationCompleted cev infra operation] else [])"
    and wakes: "sched \<noteq> []"
  shows "fst (StreamStateUpdate js gw (map store_world (snapshots js gw client sched))
               infra operation send) =
         map snd pushes @ (if completed then [marker] else [])"
proof -
  let ?n = "getStateStreamName gw infra operation"
  let ?ps = "map (\<lambda>(ev, d). CallPushToOperationStream ev infra operation (Some d)) pushes"
  let ?mid = "perform_all js gw ?ps client"
  let ?final = "perform_all js gw (concat sched) client"
  have ok: "stream_ok (streams client ?n)"
    using fresh by (simp add: stream_ok_Nil)
  have acc: "\<And>h r. send h r = None"
    using sink by simp
  have mid: "List.map_filter (state_of js) (map to_XMessage (streams ?mid ?n)) = map snd pushes"
    using pushes_decoded [OF pushed, of gw infra operation client] fresh
    by (simp add: List.map_filter_simps)
  have final: "List.map_filter (state_of js) (map to_XMessage (streams ?final ?n)) =
      map snd pushes @ (if completed then [marker] else [])"
  proof (cases completed)
    case False
    with sched mid show ?thesis by simp
  next
    case True
    with completion obtain b where c: "xadd_fault cev = None"
        "Marshal_map js [''status'' \<mapsto> IString ''OPERATION_COMPLETED''] = Inr b"
        "Unmarshal js b = Inr marker"
      by auto
    have "?final = snd (SendOperationCompleted js gw cev ?mid infra operation)"
      using sched True by (simp add: perform_all_append)
    with completed_decoded [OF c, of gw ?mid infra operation] mid True
    show ?thesis by simp
  qed
  show ?thesis
    unfolding StreamStateUpdate_skel
    using tail_loop_snapshots [where dec = "state_of js" and js = js and gw = gw, OF acc ok wakes]
      final
    by simp
qed

theorem state_tail_delivers_pushes_witness:
  "fst (StreamStateUpdate example_json example_GetWorkspaceID
          (map store_world
             (snapshots example_json example_GetWorkspaceID empty_redis
                [[CallPushToOperationStream example_env ''infra'' ''op'' (Some ''r1'')],
                 [],
                 [CallPushToOperationStream example_env ''infra'' ''op'' (Some ''r2''),
                  CallSendOperationCompleted example_env ''infra'' ''op'']]))
          ''infra'' ''op'' accept_all) =
   [''r1'', ''r2'', '''']"
  using state_tail_delivers_pushes [where js = example_json and gw = example_GetWorkspaceID
      and client = empty_redis and infra = "''infra''" and operation = "''op''"
      and pushes = "[(example_env, ''r1''), (example_env, ''r2'')]" and completed = True
      and cev = example_env and marker = "''''" and send = accept_all
      and sched = "[[CallPushToOperationStream example_env ''infra'' ''op'' (Some ''r1'')],
                 [],
                 [CallPushToOperationStream example_env ''infra'' ''op'' (Some ''r2''),
                  CallSendOperationCompleted example_env ''infra'' ''op'']]"]
  by (simp add: example_json_def example_env_def empty_redis_def accept_all_def)

text \<open>
  C2. Each tail below has delivered one record and is blocked on its next read when the
  context is cancelled. The client ends the read with the error of the context, and the
  tail returns that error from \<open>if err != nil { return err }\<close>, which comes before the
  \<open>select\<close> on \<open>ctx.Done()\<close> that returns \<open>nil\<close>. No record is delivered after the
  cancellation, as the claim has it, but the call returns \<open>context canceled\<close> and not
  \<open>nil\<close>.
\<close>

theorem cancel_while_blocked_returns_error:
  "StreamOperationLogs example_GetWorkspaceID [read_returns [log_message (1, 0) ''a'']]
     ''infra'' ''op'' accept_all = ([''a''], Blocked (1, 0))
   \<and> StreamOperationLogs example_GetWorkspaceID
       [read_returns [log_message (1, 0) ''a''], read_interrupted]
       ''infra'' ''op'' accept_all = ([''a''], Returned (Some context_canceled))
   \<and> StreamStateUpdate example_json example_GetWorkspaceID
       [read_returns [data_message (1, 0) ''{id:r1}'']]
       ''infra'' ''op'' accept_all = ([''r1''], Blocked (1, 0))
   \<and> StreamStateUpdate example_json example_GetWorkspaceID
       [read_returns [data_message (1, 0) ''{id:r1}''], read_interrupted]
       ''infra'' ''op'' accept_all = ([''r1''], Returned (Some context_canceled))"
  by (simp add: StreamOperationLogs_def StreamStateUpdate_def getLogsStreamName_def
        getStateStreamName_def example_GetWorkspaceID_def read_returns_def read_interrupted_def
        log_message_def data_message_def accept_all_def example_json_def)

text \<open>
  C3, as amended. \<open>StreamOperationLogs\<close> and \<open>StreamStateUpdate\<close> take no offset: they
  always tail their stream from the beginning, that is, a tail from offset \<open>0-0\<close>, which
  delivers every decodable entry of the stream.
\<close>

theorem tails_start_at_beginning:
  "(stream_ok (streams client (getLogsStreamName gw infra operation)) \<and>
    (\<forall>h r. send h r = None) \<longrightarrow>
    fst (StreamOperationLogs gw [store_world client] infra operation send) =
      tail_from_offset log_of client (getLogsStreamName gw infra operation) (0, 0)
    \<and> tail_from_offset log_of client (getLogsStreamName gw infra operation) (0, 0) =
      List.map_filter log_of
        (map to_XMessage (streams client (getLogsStreamName gw infra operation))))
   \<and> (stream_ok (streams client (getStateStreamName gw infra operation)) \<and>
    (\<forall>h r. send' h r = None) \<longrightarrow>
    fst (StreamStateUpdate js gw [store_world client] infra operation send') =
      tail_from_offset (state_of js) client (getStateStreamName gw infra operation) (0, 0)
    \<and> tail_from_offset (state_of js) client (getStateStreamName gw infra operation) (0, 0) =
      List.map_filter (state_of js)
        (map to_XMessage (streams client (getStateStreamName gw infra operation))))"
proof (intro conjI impI)
  assume a: "stream_ok (streams client (getLogsStreamName gw infra operation)) \<and>
    (\<forall>h r. send h r = None)"
  then have acc: "\<And>h r. send h r = None" and ok: "stream_ok (streams client (getLogsStreamName gw infra operation))"
    by simp_all
  show "tail_from_offset log_of client (getLogsStreamName gw infra operation) (0, 0) =
      List.map_filter log_of (map to_XMessage (streams client (getLogsStreamName gw infra operation)))"
    using ok by (rule tail_from_beginning)
  then show "fst (StreamOperationLogs gw [store_world client] infra operation send) =
      tail_from_offset log_of client (getLogsStreamName gw infra operation) (0, 0)"
    unfolding StreamOperationLogs_skel
    using tail_loop_one_store [where dec = log_of and send = send, OF acc ok] by simp
next
  assume a: "stream_ok (streams client (getStateStreamName gw infra operation)) \<and>
    (\<forall>h r. send' h r = None)"
  then have acc: "\<And>h r. send' h r = None" and ok: "stream_ok (streams client (getStateStreamName gw infra operation))"
    by simp_all
  show "tail_from_offset (state_of js) client (getStateStreamName gw infra operation) (0, 0) =
      List.map_filter (state_of js)
        (map to_XMessage (streams client (getStateStreamName gw infra operation)))"
    using ok by (rule tail_from_beginning)
  then show "fst (StreamStateUpdate js gw [store_world client] infra operation send') =
      tail_from_offset (state_of js) client (getStateStreamName gw infra operation) (0, 0)"
    unfolding StreamStateUpdate_skel
    using tail_loop_one_store [where dec = "state_of js" and send = send', OF acc ok] by simp
qed

theorem tails_start_at_beginning_witness:
  "fst (StreamOperationLogs example_GetWorkspaceID
          [store_world
             (perform_all example_json example_GetWorkspaceID
                [CallPushToLogStream example_env ''infra'' ''op'' example_line,
                 CallPushToLogStream example_env ''infra'' ''op''
                   (example_line\<lparr>Message := ''done''\<rparr>)]
                empty_redis)]
          ''infra'' ''op'' accept_all) =
     [''[INFO] [t2] applying'' @ [CHR 0x0A], ''[INFO] [t2] done'' @ [CHR 0x0A]]
   \<and> fst (StreamStateUpdate example_json example_GetWorkspaceID
          [store_world (perform_all example_json example_GetWorkspaceID example_scenario empty_redis)]
          ''infra'' ''op'' accept_all) =
     [''r1'', '''']"
  using tails_start_at_beginning [where gw = example_GetWorkspaceID and infra = "''infra''"
      and operation = "''op''" and send = accept_all and send' = accept_all and js = example_json
      and client = "perform_all example_json example_GetWorkspaceID
                [CallPushToLogStream example_env ''infra'' ''op'' example_line,
                 CallPushToLogStream example_env ''infra'' ''op''
                   (example_line\<lparr>Message := ''done''\<rparr>)]
                empty_redis"]
    tails_start_at_beginning [where gw = example_GetWorkspaceID and infra = "''infra''"
      and operation = "''op''" and send = accept_all and send' = accept_all and js = example_json
      and client = "perform_all example_json example_GetWorkspaceID example_scenario empty_redis"]
  by (simp add: example_env_def example_line_def example_scenario_def accept_all_def
        empty_redis_def stream_ok_def example_json_def PushToOperationStream_def
        PushToLogStream_def SendOperationCompleted_def XAdd_def getLogsStreamName_def
        getStateStreamName_def example_GetWorkspaceID_def List.map_filter_simps Let_def
        auto_id_def last_id_def id_less_def getLogString_def log_of_def state_of_def
        to_XMessage_def)

text \<open>
  C3, as stated, fails: no argument of the tail is an offset. On a logs stream with the
  entries \<open>5-0\<close> and \<open>5-1\<close>, a tail from the offset \<open>5-0\<close> would deliver the second line
  only; \<open>StreamOperationLogs\<close> delivers both, for every caller.
\<close>

theorem no_caller_supplied_offset:
  "tail_from_offset log_of
     (perform_all example_json example_GetWorkspaceID
        [CallPushToLogStream example_env ''infra'' ''op'' example_line,
         CallPushToLogStream example_env ''infra'' ''op'' (example_line\<lparr>Message := ''done''\<rparr>)]
        empty_redis)
     ''infra-op-logs'' (5, 0) =
     [''[INFO] [t2] done'' @ [CHR 0x0A]]
   \<and> fst (StreamOperationLogs example_GetWorkspaceID
          [store_world
             (perform_all example_json example_GetWorkspaceID
                [CallPushToLogStream example_env ''infra'' ''op'' example_line,
                 CallPushToLogStream example_env ''infra'' ''op''
                   (example_line\<lparr>Message := ''done''\<rparr>)]
                empty_redis)]
          ''infra'' ''op'' accept_all) =
     [''[INFO] [t2] applying'' @ [CHR 0x0A], ''[INFO] [t2] done'' @ [CHR 0x0A]]"
  by (simp add: example_env_def example_line_def accept_all_def
        empty_redis_def PushToLogStream_def XAdd_def getLogsStreamName_def
        example_GetWorkspaceID_def List.map_filter_simps Let_def
        auto_id_def last_id_def id_less_def getLogString_def log_of_def
        to_XMessage_def tail_from_offset_def StreamOperationLogs_def store_world_def
        store_XRead_def)

text \<open>
  C4, as amended. A log record pushed with \<open>PushToLogStream\<close> reaches the sink of a
  log-stream consumer, after the lines pushed before it, as
  \<open>[level] [timestamp] message\<close> followed by a newline, with \<open>: detail\<close> before the
  newline when the detail is not empty. In the example scenario the consumer observes
  \<open>[INFO] [t2] applying\<close> followed by a newline.
\<close>

theorem log_line_delivered:
  assumes "xadd_fault ev = None"
    and "stream_ok (streams client (getLogsStreamName gw infra operation))"
    and "\<forall>h r. send h r = None"
  shows "fst (StreamOperationLogs gw
                [store_world (snd (PushToLogStream gw ev client infra operation line))]
                infra operation send) =
         List.map_filter log_of
           (map to_XMessage (streams client (getLogsStreamName gw infra operation))) @
         [''['' @ Level line @ ''] ['' @ Timestamp line @ ''] '' @ Message line @
          (if Detail (Diagnostic line) = '''' then '''' else '': '' @ Detail (Diagnostic line)) @
          [CHR 0x0A]]"
proof -
  let ?n = "getLogsStreamName gw infra operation"
  let ?c = "snd (PushToLogStream gw ev client infra operation line)"
  have acc: "\<And>h r. send h r = None"
    using assms(3) by simp
  have ok: "stream_ok (streams ?c ?n)"
    using assms(2) by (simp add: PushToLogStream_snd XAdd_stream_ok)
  have "streams ?c ?n =
      streams client ?n @ [(auto_id (server_ms ev) (streams client ?n), [''log'' \<mapsto> getLogString line])]"
    using assms(1) by (simp add: PushToLogStream_snd XAdd_done)
  then have "List.map_filter log_of (map to_XMessage (streams ?c ?n)) =
      List.map_filter log_of (map to_XMessage (streams client ?n)) @ [getLogString line]"
    by (simp add: map_filter_append log_of_pushed List.map_filter_simps)
  with tail_loop_one_store [where dec = log_of and send = send, OF acc ok]
  show ?thesis
    unfolding StreamOperationLogs_skel getLogString_layout by simp
qed

theorem log_line_delivered_witness:
  "fst (StreamOperationLogs example_GetWorkspaceID
          [store_world (snd (PushToLogStream example_GetWorkspaceID example_env
             (perform_all example_json example_GetWorkspaceID
                [CallPushToOperationStream example_env ''infra'' ''op'' (Some ''r1'')] empty_redis)
             ''infra'' ''op'' example_line))]
          ''infra'' ''op'' accept_all) =
   [''[INFO] [t2] applying'' @ [CHR 0x0A]]"
  using log_line_delivered [where gw = example_GetWorkspaceID and ev = example_env
      and client = "perform_all example_json example_GetWorkspaceID
                [CallPushToOperationStream example_env ''infra'' ''op'' (Some ''r1'')] empty_redis"
      and infra = "''infra''" and operation = "''op''" and line = example_line
      and send = accept_all]
  by (simp add: example_env_def example_line_def accept_all_def empty_redis_def stream_ok_def
        example_json_def PushToOperationStream_def XAdd_def getLogsStreamName_def
        getStateStreamName_def example_GetWorkspaceID_def List.map_filter_simps Let_def)

text \<open>
  C4, as stated, fails: the line of the example record is not \<open>[INFO] [t2] applying\<close>,
  and the consumer of the example scenario does not observe exactly that string; the format
  string of \<open>getLogString\<close> ends in a newline.
\<close>

theorem log_line_has_newline:
  "getLogString example_line \<noteq> ''[INFO] [t2] applying''
   \<and> fst (StreamOperationLogs example_GetWorkspaceID
          [store_world (perform_all example_json example_GetWorkspaceID example_scenario empty_redis)]
          ''infra'' ''op'' accept_all) \<noteq> [''[INFO] [t2] applying'']"
  by (simp add: getLogString_def example_line_def example_scenario_def example_env_def
        example_json_def empty_redis_def accept_all_def example_GetWorkspaceID_def
        PushToOperationStream_def PushToLogStream_def SendOperationCompleted_def XAdd_def
        getStateStreamName_def getLogsStreamName_def auto_id_def last_id_def
        StreamOperationLogs_def store_world_def store_XRead_def id_less_def to_XMessage_def
        Let_def)

text \<open>
  C5. When a read returns an undecodable entry between two valid ones (the expected field
  is missing, its value is not a string or, on the state stream, its payload fails
  \<open>json.Unmarshal\<close>), the tail hands exactly the two valid records to the sink, in order,
  and goes on to the next read from the ID of the last entry.
\<close>

theorem malformed_entry_skipped:
  "(StreamOperationLogs gw past infra operation send = (sent, Blocked lastID) \<and>
    XRead w (getLogsStreamName gw infra operation) lastID =
      Some (Inr (\<lparr>Stream = s, Messages = [m, bad, m']\<rparr> # xs)) \<and>
    Values m ''log'' = Some (IString l) \<and>
    (Values bad ''log'' = None \<or> Values bad ''log'' = Some INonString) \<and>
    Values m' ''log'' = Some (IString l') \<and>
    send sent l = None \<and> send (sent @ [l]) l' = None \<and> \<not> ctx_Done w \<longrightarrow>
    StreamOperationLogs gw (past @ [w]) infra operation send = (sent @ [l, l'], Blocked (ID m')))
   \<and> (StreamStateUpdate js gw past infra operation send' = (sent', Blocked lastID') \<and>
    XRead w (getStateStreamName gw infra operation) lastID' =
      Some (Inr (\<lparr>Stream = s, Messages = [m, bad, m']\<rparr> # xs)) \<and>
    Values m ''data'' = Some (IString d) \<and> Unmarshal js d = Inr r \<and>
    (Values bad ''data'' = None \<or> Values bad ''data'' = Some INonString \<or>
     (\<exists>p err. Values bad ''data'' = Some (IString p) \<and> Unmarshal js p = Inl err)) \<and>
    Values m' ''data'' = Some (IString d') \<and> Unmarshal js d' = Inr r' \<and>
    send' sent' r = None \<and> send' (sent' @ [r]) r' = None \<and> \<not> ctx_Done w \<longrightarrow>
    StreamStateUpdate js gw (past @ [w]) infra operation send' =
      (sent' @ [r, r'], Blocked (ID m')))"
proof (intro conjI impI)
  assume a: "StreamOperationLogs gw past infra operation send = (sent, Blocked lastID) \<and>
    XRead w (getLogsStreamName gw infra operation) lastID =
      Some (Inr (\<lparr>Stream = s, Messages = [m, bad, m']\<rparr> # xs)) \<and>
    Values m ''log'' = Some (IString l) \<and>
    (Values bad ''log'' = None \<or> Values bad ''log'' = Some INonString) \<and>
    Values m' ''log'' = Some (IString l') \<and>
    send sent l = None \<and> send (sent @ [l]) l' = None \<and> \<not> ctx_Done w"
  then have dec: "log_of m = Some l" "log_of bad = None" "log_of m' = Some l'"
    by (auto simp: log_of_def)
  from a have "StreamOperationLogs gw (past @ [w]) infra operation send =
      tail_loop log_of send (getLogsStreamName gw infra operation) [w] lastID sent"
    by (simp only: StreamOperationLogs_append)
  also from a dec have "\<dots> = (sent @ [l, l'], Blocked (ID m'))"
    by (intro tail_loop_three [where s = s and bad = bad and xs = xs]) simp_all
  finally show "StreamOperationLogs gw (past @ [w]) infra operation send =
      (sent @ [l, l'], Blocked (ID m'))" .
next
  assume a: "StreamStateUpdate js gw past infra operation send' = (sent', Blocked lastID') \<and>
    XRead w (getStateStreamName gw infra operation) lastID' =
      Some (Inr (\<lparr>Stream = s, Messages = [m, bad, m']\<rparr> # xs)) \<and>
    Values m ''data'' = Some (IString d) \<and> Unmarshal js d = Inr r \<and>
    (Values bad ''data'' = None \<or> Values bad ''data'' = Some INonString \<or>
     (\<exists>p err. Values bad ''data'' = Some (IString p) \<and> Unmarshal js p = Inl err)) \<and>
    Values m' ''data'' = Some (IString d') \<and> Unmarshal js d' = Inr r' \<and>
    send' sent' r = None \<and> send' (sent' @ [r]) r' = None \<and> \<not> ctx_Done w"
  then have dec: "state_of js m = Some r" "state_of js bad = None" "state_of js m' = Some r'"
    by (auto simp: state_of_def)
  from a have "StreamStateUpdate js gw (past @ [w]) infra operation send' =
      tail_loop (state_of js) send' (getStateStreamName gw infra operation) [w] lastID' sent'"
    by (simp only: StreamStateUpdate_append)
  also from a dec have "\<dots> = (sent' @ [r, r'], Blocked (ID m'))"
    by (intro tail_loop_three [where s = s and bad = bad and xs = xs]) simp_all
  finally show "StreamStateUpdate js gw (past @ [w]) infra operation send' =
      (sent' @ [r, r'], Blocked (ID m'))" .
qed

theorem malformed_entry_skipped_witness:
  "StreamOperationLogs example_GetWorkspaceID
     ([] @ [read_returns [log_message (1, 0) ''a'',
                          \<lparr>ID = (2, 0), Values = [''log'' \<mapsto> INonString]\<rparr>,
                          log_message (3, 0) ''c'']])
     ''infra'' ''op'' accept_all = ([] @ [''a'', ''c''], Blocked (ID (log_message (3, 0) ''c'')))
   \<and> StreamStateUpdate example_json example_GetWorkspaceID
     ([] @ [read_returns [data_message (1, 0) ''{id:r1}'', data_message (2, 0) ''not json'',
                          data_message (3, 0) ''{id:r3}'']])
     ''infra'' ''op'' accept_all =
     ([] @ [''r1'', ''r3''], Blocked (ID (data_message (3, 0) ''{id:r3}'')))"
  using malformed_entry_skipped [where gw = example_GetWorkspaceID and infra = "''infra''"
      and operation = "''op''" and send = accept_all and past = "[]" and sent = "[]"
      and lastID = "(0, 0)"
      and w = "read_returns [log_message (1, 0) ''a'',
                          \<lparr>ID = (2, 0), Values = [''log'' \<mapsto> INonString]\<rparr>,
                          log_message (3, 0) ''c'']"
      and s = "''infra-op-logs''" and m = "log_message (1, 0) ''a''"
      and bad = "\<lparr>ID = (2, 0), Values = [''log'' \<mapsto> INonString]\<rparr>"
      and m' = "log_message (3, 0) ''c''" and xs = "[]" and l = "''a''" and l' = "''c''"]
    malformed_entry_skipped [where gw = example_GetWorkspaceID and infra = "''infra''"
      and operation = "''op''" and send' = accept_all and js = example_json and past = "[]"
      and sent' = "[]" and lastID' = "(0, 0)"
      and w = "read_returns [data_message (1, 0) ''{id:r1}'', data_message (2, 0) ''not json'',
                          data_message (3, 0) ''{id:r3}'']"
      and s = "''infra-op-state''" and m = "data_message (1, 0) ''{id:r1}''"
      and bad = "data_message (2, 0) ''not json''" and m' = "data_message (3, 0) ''{id:r3}''"
      and xs = "[]" and d = "''{id:r1}''" and d' = "''{id:r3}''" and r = "''r1''" and r' = "''r3''"]
  by (simp add: StreamOperationLogs_def StreamStateUpdate_def getLogsStreamName_def
        getStateStreamName_def example_GetWorkspaceID_def read_returns_def log_message_def
        data_message_def accept_all_def example_json_def)

text \<open>
  C6. When the sink returns an error for a record, the tail stops at once and returns that
  error: if the sink accepts the first \<open>k\<close> records of a batch and fails on the next, the
  tail returns the sink's error, having delivered those \<open>k\<close> records and nothing after
  them, whatever would follow. A sink that fails on the second record it is handed makes
  the tail return that error after exactly one record was delivered.
\<close>

theorem sink_error_aborts:
  "(StreamOperationLogs gw past infra operation send = (sent, Blocked lastID) \<and>
    XRead w (getLogsStreamName gw infra operation) lastID = Some (Inr (x # xs)) \<and>
    List.map_filter log_of (Messages x) = rs \<and> k < length rs \<and>
    (\<forall>j<k. send (sent @ take j rs) (rs ! j) = None) \<and>
    send (sent @ take k rs) (rs ! k) = Some err \<longrightarrow>
    StreamOperationLogs gw (past @ w # rest) infra operation send =
      (sent @ take k rs, Returned (Some err)))
   \<and> (StreamStateUpdate js gw past infra operation send' = (sent', Blocked lastID') \<and>
    XRead w (getStateStreamName gw infra operation) lastID' = Some (Inr (x # xs)) \<and>
    List.map_filter (state_of js) (Messages x) = rs' \<and> k' < length rs' \<and>
    (\<forall>j<k'. send' (sent' @ take j rs') (rs' ! j) = None) \<and>
    send' (sent' @ take k' rs') (rs' ! k') = Some err' \<longrightarrow>
    StreamStateUpdate js gw (past @ w # rest) infra operation send' =
      (sent' @ take k' rs', Returned (Some err')))"
proof (intro conjI impI)
  assume a: "StreamOperationLogs gw past infra operation send = (sent, Blocked lastID) \<and>
    XRead w (getLogsStreamName gw infra operation) lastID = Some (Inr (x # xs)) \<and>
    List.map_filter log_of (Messages x) = rs \<and> k < length rs \<and>
    (\<forall>j<k. send (sent @ take j rs) (rs ! j) = None) \<and>
    send (sent @ take k rs) (rs ! k) = Some err"
  then have "StreamOperationLogs gw (past @ w # rest) infra operation send =
      tail_loop log_of send (getLogsStreamName gw infra operation) (w # rest) lastID sent"
    by (simp only: StreamOperationLogs_append)
  also have "\<dots> = (sent @ take k rs, Returned (Some err))"
    using a by (intro tail_loop_sink_fails_at [where x = x and xs = xs and rs = rs]) simp_all
  finally show "StreamOperationLogs gw (past @ w # rest) infra operation send =
      (sent @ take k rs, Returned (Some err))" .
next
  assume a: "StreamStateUpdate js gw past infra operation send' = (sent', Blocked lastID') \<and>
    XRead w (getStateStreamName gw infra operation) lastID' = Some (Inr (x # xs)) \<and>
    List.map_filter (state_of js) (Messages x) = rs' \<and> k' < length rs' \<and>
    (\<forall>j<k'. send' (sent' @ take j rs') (rs' ! j) = None) \<and>
    send' (sent' @ take k' rs') (rs' ! k') = Some err'"
  then have "StreamStateUpdate js gw (past @ w # rest) infra operation send' =
      tail_loop (state_of js) send' (getStateStreamName gw infra operation) (w # rest) lastID' sent'"
    by (simp only: StreamStateUpdate_append)
  also have "\<dots> = (sent' @ take k' rs', Returned (Some err'))"
    using a by (intro tail_loop_sink_fails_at [where x = x and xs = xs and rs = rs']) simp_all
  finally show "StreamStateUpdate js gw (past @ w # rest) infra operation send' =
      (sent' @ take k' rs', Returned (Some err'))" .
qed

theorem sink_error_aborts_witness:
  "StreamOperationLogs example_GetWorkspaceID
     ([read_returns [log_message (1, 0) ''a'']] @
      read_returns [log_message (2, 0) ''b'', log_message (3, 0) ''c''] #
      [read_returns [log_message (4, 0) ''d'']])
     ''infra'' ''op'' (fail_on_second (Error ''stream closed'')) =
     ([''a''], Returned (Some (Error ''stream closed'')))
   \<and> StreamStateUpdate example_json example_GetWorkspaceID
     ([] @ read_returns [data_message (1, 0) ''{id:r1}'', data_message (2, 0) ''{id:r2}''] #
      [read_returns [data_message (3, 0) ''{id:r3}'']])
     ''infra'' ''op'' (fail_on_second (Error ''stream closed'')) =
     ([''r1''], Returned (Some (Error ''stream closed'')))"
  using sink_error_aborts [where gw = example_GetWorkspaceID and infra = "''infra''"
      and operation = "''op''" and send = "fail_on_second (Error ''stream closed'')"
      and past = "[read_returns [log_message (1, 0) ''a'']]"
      and w = "read_returns [log_message (2, 0) ''b'', log_message (3, 0) ''c'']"
      and rest = "[read_returns [log_message (4, 0) ''d'']]"
      and sent = "[''a'']" and lastID = "(1, 0)"
      and x = "\<lparr>Stream = ''infra-op-logs'',
                 Messages = [log_message (2, 0) ''b'', log_message (3, 0) ''c'']\<rparr>"
      and xs = "[]" and rs = "[''b'', ''c'']" and k = 0 and err = "Error ''stream closed''"]
    sink_error_aborts [where gw = example_GetWorkspaceID and infra = "''infra''"
      and operation = "''op''" and send' = "fail_on_second (Error ''stream closed'')"
      and js = example_json and past = "[]"
      and w = "read_returns [data_message (1, 0) ''{id:r1}'', data_message (2, 0) ''{id:r2}'']"
      and rest = "[read_returns [data_message (3, 0) ''{id:r3}'']]"
      and sent' = "[]" and lastID' = "(0, 0)"
      and x = "\<lparr>Stream = ''infra-op-state'',
                 Messages = [data_message (1, 0) ''{id:r1}'', data_message (2, 0) ''{id:r2}'']\<rparr>"
      and xs = "[]" and rs' = "[''r1'', ''r2'']" and k' = 1 and err' = "Error ''stream closed''"]
  by (simp add: StreamOperationLogs_def StreamStateUpdate_def getLogsStreamName_def
        getStateStreamName_def example_GetWorkspaceID_def read_returns_def log_message_def
        data_message_def fail_on_second_def example_json_def log_of_def state_of_def
        List.map_filter_simps)

text \<open>
  C7. Each producer returns an error exactly when the serialization fails (the error of
  \<open>json.Marshal\<close>, and no append is attempted) or the append fails (the error of
  \<open>XAdd\<close>); it issues one XADD at most, and on success it has appended exactly one entry
  to its stream and returns \<open>nil\<close>. \<open>PushToLogStream\<close> serializes nothing, so only the
  append can fail there.
\<close>

theorem producers_errors:
  "(case Marshal_entry js \<lparr>TFResourceState = data, PushedAt = time_Now ev\<rparr> of
      Inl err \<Rightarrow> PushToOperationStream js gw ev client infra operation data = (Some err, client)
    | Inr b \<Rightarrow>
        fst (PushToOperationStream js gw ev client infra operation data) = xadd_fault ev
        \<and> xadds (snd (PushToOperationStream js gw ev client infra operation data)) = Suc (xadds client)
        \<and> (xadd_fault ev = None \<longrightarrow>
             streams (snd (PushToOperationStream js gw ev client infra operation data)) =
               (streams client)
                 (getStateStreamName gw infra operation :=
                    streams client (getStateStreamName gw infra operation) @
                    [(auto_id (server_ms ev) (streams client (getStateStreamName gw infra operation)),
                      [''id'' \<mapsto> gw infra operation, ''data'' \<mapsto> b])])))
   \<and> (case Marshal_map js [''status'' \<mapsto> IString ''OPERATION_COMPLETED''] of
      Inl err \<Rightarrow> SendOperationCompleted js gw ev client infra operation = (Some err, client)
    | Inr b \<Rightarrow>
        fst (SendOperationCompleted js gw ev client infra operation) = xadd_fault ev
        \<and> xadds (snd (SendOperationCompleted js gw ev client infra operation)) = Suc (xadds client)
        \<and> (xadd_fault ev = None \<longrightarrow>
             streams (snd (SendOperationCompleted js gw ev client infra operation)) =
               (streams client)
                 (getStateStreamName gw infra operation :=
                    streams client (getStateStreamName gw infra operation) @
                    [(auto_id (server_ms ev) (streams client (getStateStreamName gw infra operation)),
                      [''id'' \<mapsto> gw infra operation, ''data'' \<mapsto> b])])))
   \<and> fst (PushToLogStream gw ev client infra operation line) = xadd_fault ev
   \<and> xadds (snd (PushToLogStream gw ev client infra operation line)) = Suc (xadds client)
   \<and> (xadd_fault ev = None \<longrightarrow>
        streams (snd (PushToLogStream gw ev client infra operation line)) =
          (streams client)
            (getLogsStreamName gw infra operation :=
               streams client (getLogsStreamName gw infra operation) @
               [(auto_id (server_ms ev) (streams client (getLogsStreamName gw infra operation)),
                 [''log'' \<mapsto> getLogString line])]))"
proof -
  have p: "?thesis" if False
    using that by simp
  have 1: "case Marshal_entry js \<lparr>TFResourceState = data, PushedAt = time_Now ev\<rparr> of
      Inl err \<Rightarrow> PushToOperationStream js gw ev client infra operation data = (Some err, client)
    | Inr b \<Rightarrow>
        fst (PushToOperationStream js gw ev client infra operation data) = xadd_fault ev
        \<and> xadds (snd (PushToOperationStream js gw ev client infra operation data)) = Suc (xadds client)
        \<and> (xadd_fault ev = None \<longrightarrow>
             streams (snd (PushToOperationStream js gw ev client infra operation data)) =
               (streams client)
                 (getStateStreamName gw infra operation :=
                    streams client (getStateStreamName gw infra operation) @
                    [(auto_id (server_ms ev) (streams client (getStateStreamName gw infra operation)),
                      [''id'' \<mapsto> gw infra operation, ''data'' \<mapsto> b])]))"
    by (auto split: sum.splits
          simp: PushToOperationStream_marshal_failed PushToOperationStream_marshalled XAdd_xadds XAdd_done)
  have 2: "case Marshal_map js [''status'' \<mapsto> IString ''OPERATION_COMPLETED''] of
      Inl err \<Rightarrow> SendOperationCompleted js gw ev client infra operation = (Some err, client)
    | Inr b \<Rightarrow>
        fst (SendOperationCompleted js gw ev client infra operation) = xadd_fault ev
        \<and> xadds (snd (SendOperationCompleted js gw ev client infra operation)) = Suc (xadds client)
        \<and> (xadd_fault ev = None \<longrightarrow>
             streams (snd (SendOperationCompleted js gw ev client infra operation)) =
               (streams client)
                 (getStateStreamName gw infra operation :=
                    streams client (getStateStreamName gw infra operation) @
                    [(auto_id (server_ms ev) (streams client (getStateStreamName gw infra operation)),
                      [''id'' \<mapsto> gw infra operation, ''data'' \<mapsto> b])]))"
    by (auto split: sum.splits
          simp: SendOperationCompleted_marshal_failed SendOperationCompleted_marshalled XAdd_xadds XAdd_done)
  have 3: "fst (PushToLogStream gw ev client infra operation line) = xadd_fault ev"
    by (rule PushToLogStream_fst)
  have 4: "xadds (snd (PushToLogStream gw ev client infra operation line)) = Suc (xadds client)"
    by (simp add: PushToLogStream_snd XAdd_xadds)
  have 5: "xadd_fault ev = None \<longrightarrow>
        streams (snd (PushToLogStream gw ev client infra operation line)) =
          (streams client)
            (getLogsStreamName gw infra operation :=
               streams client (getLogsStreamName gw infra operation) @
               [(auto_id (server_ms ev) (streams client (getLogsStreamName gw infra operation)),
                 [''log'' \<mapsto> getLogString line])])"
    by (simp add: PushToLogStream_snd XAdd_done)
  from 1 2 3 4 5 show ?thesis by blast
qed

theorem producers_errors_witness:
  "PushToOperationStream
     (example_json\<lparr>Marshal_entry := \<lambda>e. Inl (Error ''json: unsupported value'')\<rparr>)
     example_GetWorkspaceID \<lparr>time_Now = 7, xadd_fault = None, server_ms = 5\<rparr> empty_redis
     ''infra'' ''op'' (Some ''r1'') =
     (Some (Error ''json: unsupported value''), empty_redis)
   \<and> fst (PushToOperationStream example_json example_GetWorkspaceID
            \<lparr>time_Now = 7, xadd_fault = Some (Error ''connection refused''), server_ms = 5\<rparr>
            empty_redis ''infra'' ''op'' (Some ''r1'')) = Some (Error ''connection refused'')
   \<and> fst (PushToOperationStream example_json example_GetWorkspaceID
            \<lparr>time_Now = 7, xadd_fault = None, server_ms = 5\<rparr>
            empty_redis ''infra'' ''op'' (Some ''r1'')) = None
   \<and> streams (snd (PushToOperationStream example_json example_GetWorkspaceID
            \<lparr>time_Now = 7, xadd_fault = None, server_ms = 5\<rparr>
            empty_redis ''infra'' ''op'' (Some ''r1''))) ''infra-op-state'' =
       [((5, 0), [''id'' \<mapsto> ''infra-op'', ''data'' \<mapsto> ''{id:r1}''])]
   \<and> xadds (snd (PushToLogStream example_GetWorkspaceID
            \<lparr>time_Now = 7, xadd_fault = None, server_ms = 5\<rparr> empty_redis ''infra'' ''op''
            \<lparr>Level = ''INFO'', Timestamp = ''t2'', Message = ''applying'',
             Diagnostic = \<lparr>Detail = ''''\<rparr>\<rparr>)) = 1"
  using
    producers_errors [where js = "example_json\<lparr>Marshal_entry := \<lambda>e. Inl (Error ''json: unsupported value'')\<rparr>"
      and data = "Some ''r1''" and ev = "\<lparr>time_Now = 7, xadd_fault = None, server_ms = 5\<rparr>"
      and gw = example_GetWorkspaceID and client = empty_redis and infra = "''infra''"
      and operation = "''op''"]
    producers_errors [where js = example_json and data = "Some ''r1''"
      and ev = "\<lparr>time_Now = 7, xadd_fault = Some (Error ''connection refused''), server_ms = 5\<rparr>"
      and gw = example_GetWorkspaceID and client = empty_redis and infra = "''infra''"
      and operation = "''op''"]
    producers_errors [where js = example_json and data = "Some ''r1''"
      and ev = "\<lparr>time_Now = 7, xadd_fault = None, server_ms = 5\<rparr>"
      and gw = example_GetWorkspaceID and client = empty_redis and infra = "''infra''"
      and operation = "''op''"
      and line = "\<lparr>Level = ''INFO'', Timestamp = ''t2'', Message = ''applying'',
             Diagnostic = \<lparr>Detail = ''''\<rparr>\<rparr>"]
  by (simp add: example_json_def example_GetWorkspaceID_def empty_redis_def
        getStateStreamName_def auto_id_def last_id_def)

text \<open>
  C8. The state stream name and the logs stream name of an operation are distinct, and a
  push to the logs stream leaves every state stream as it was (entries and order), that of
  the same operation included; a push to the state stream, and the completion marker,
  leave every logs stream as it was.
\<close>

theorem streams_independent:
  "getStateStreamName gw infra operation \<noteq> getLogsStreamName gw infra operation
   \<and> streams (snd (PushToLogStream gw ev client infra operation line))
        (getStateStreamName gw infra' operation') =
      streams client (getStateStreamName gw infra' operation')
   \<and> streams (snd (PushToOperationStream js gw ev client infra operation data))
        (getLogsStreamName gw infra' operation') =
      streams client (getLogsStreamName gw infra' operation')
   \<and> streams (snd (SendOperationCompleted js gw ev client infra operation))
        (getLogsStreamName gw infra' operation') =
      streams client (getLogsStreamName gw infra' operation')"
proof -
  have n: "getStateStreamName gw infra operation \<noteq> getLogsStreamName gw infra operation"
    by (rule state_name_not_logs_name)
  have l: "streams (snd (PushToLogStream gw ev client infra operation line))
        (getStateStreamName gw infra' operation') =
      streams client (getStateStreamName gw infra' operation')"
    by (simp add: PushToLogStream_snd XAdd_other_stream state_name_not_logs_name)
  have p: "streams (snd (PushToOperationStream js gw ev client infra operation data))
        (getLogsStreamName gw infra' operation') =
      streams client (getLogsStreamName gw infra' operation')"
    by (cases "Marshal_entry js \<lparr>TFResourceState = data, PushedAt = time_Now ev\<rparr>")
       (simp_all add: PushToOperationStream_marshal_failed PushToOperationStream_marshalled
          XAdd_other_stream state_name_not_logs_name [symmetric])
  have c: "streams (snd (SendOperationCompleted js gw ev client infra operation))
        (getLogsStreamName gw infra' operation') =
      streams client (getLogsStreamName gw infra' operation')"
    by (cases "Marshal_map js [''status'' \<mapsto> IString ''OPERATION_COMPLETED'']")
       (simp_all add: SendOperationCompleted_marshal_failed SendOperationCompleted_marshalled
          XAdd_other_stream state_name_not_logs_name [symmetric])
  from n l p c show ?thesis by blast
qed

text \<open>
  C9. Both tails index the read result unguarded (\<open>xstream[0]\<close> and
  \<open>messages[len(messages)-1]\<close>). When every read that returns without an error returns at
  least one stream with at least one message, neither tail panics; a read that returns
  without an error and with no stream, or with a first stream that has no message, makes
  the tail panic, at whatever point of its run.
\<close>

theorem tails_index_unguarded:
  "((\<forall>w \<in> set ws. \<forall>l xs. XRead w (getLogsStreamName gw infra operation) l = Some (Inr xs) \<longrightarrow>
        xs \<noteq> [] \<and> Messages (hd xs) \<noteq> []) \<longrightarrow>
      snd (StreamOperationLogs gw ws infra operation send) \<noteq> Panicked)
   \<and> ((\<forall>w \<in> set ws. \<forall>l xs. XRead w (getStateStreamName gw infra operation) l = Some (Inr xs) \<longrightarrow>
        xs \<noteq> [] \<and> Messages (hd xs) \<noteq> []) \<longrightarrow>
      snd (StreamStateUpdate js gw ws infra operation send') \<noteq> Panicked)
   \<and> (StreamOperationLogs gw past infra operation send = (sent, Blocked lastID) \<and>
      XRead w (getLogsStreamName gw infra operation) lastID = Some (Inr xs) \<and>
      (xs = [] \<or> Messages (hd xs) = []) \<longrightarrow>
      StreamOperationLogs gw (past @ w # rest) infra operation send = (sent, Panicked))
   \<and> (StreamStateUpdate js gw past infra operation send' = (sent', Blocked lastID') \<and>
      XRead w (getStateStreamName gw infra operation) lastID' = Some (Inr xs) \<and>
      (xs = [] \<or> Messages (hd xs) = []) \<longrightarrow>
      StreamStateUpdate js gw (past @ w # rest) infra operation send' = (sent', Panicked))"
proof (intro conjI impI)
  assume "\<forall>w \<in> set ws. \<forall>l xs. XRead w (getLogsStreamName gw infra operation) l = Some (Inr xs) \<longrightarrow>
        xs \<noteq> [] \<and> Messages (hd xs) \<noteq> []"
  then show "snd (StreamOperationLogs gw ws infra operation send) \<noteq> Panicked"
    unfolding StreamOperationLogs_skel by (intro tail_loop_no_panic) blast
next
  assume "\<forall>w \<in> set ws. \<forall>l xs. XRead w (getStateStreamName gw infra operation) l = Some (Inr xs) \<longrightarrow>
        xs \<noteq> [] \<and> Messages (hd xs) \<noteq> []"
  then show "snd (StreamStateUpdate js gw ws infra operation send') \<noteq> Panicked"
    unfolding StreamStateUpdate_skel by (intro tail_loop_no_panic) blast
next
  assume "StreamOperationLogs gw past infra operation send = (sent, Blocked lastID) \<and>
      XRead w (getLogsStreamName gw infra operation) lastID = Some (Inr xs) \<and>
      (xs = [] \<or> Messages (hd xs) = [])"
  then show "StreamOperationLogs gw (past @ w # rest) infra operation send = (sent, Panicked)"
    by (simp only: StreamOperationLogs_append tail_loop_panics)
next
  assume "StreamStateUpdate js gw past infra operation send' = (sent', Blocked lastID') \<and>
      XRead w (getStateStreamName gw infra operation) lastID' = Some (Inr xs) \<and>
      (xs = [] \<or> Messages (hd xs) = [])"
  then show "StreamStateUpdate js gw (past @ w # rest) infra operation send' = (sent', Panicked)"
    by (simp only: StreamStateUpdate_append tail_loop_panics)
qed

theorem tails_index_unguarded_witness:
  "snd (StreamOperationLogs example_GetWorkspaceID
          [read_returns [log_message (1, 0) ''a''], read_returns [log_message (2, 0) ''b'']]
          ''infra'' ''op'' accept_all) \<noteq> Panicked
   \<and> snd (StreamStateUpdate example_json example_GetWorkspaceID
          [read_returns [data_message (1, 0) ''{id:r1}'']] ''infra'' ''op'' accept_all) \<noteq> Panicked
   \<and> StreamOperationLogs example_GetWorkspaceID
        ([read_returns [log_message (1, 0) ''a'']] @ read_returns [] # [])
        ''infra'' ''op'' accept_all = ([''a''], Panicked)
   \<and> StreamStateUpdate example_json example_GetWorkspaceID
        ([] @ read_returns [] # [read_returns [data_message (1, 0) ''{id:r1}'']])
        ''infra'' ''op'' accept_all = ([], Panicked)"
  using tails_index_unguarded [where gw = example_GetWorkspaceID and infra = "''infra''"
      and operation = "''op''" and send = accept_all and send' = accept_all and js = example_json
      and ws = "[read_returns [log_message (1, 0) ''a''], read_returns [log_message (2, 0) ''b'']]"
      and past = "[read_returns [log_message (1, 0) ''a'']]" and w = "read_returns []"
      and rest = "[]" and sent = "[''a'']" and lastID = "(1, 0)"
      and xs = "[\<lparr>Stream = ''infra-op-logs'', Messages = []\<rparr>]"]
    tails_index_unguarded [where gw = example_GetWorkspaceID and infra = "''infra''"
      and operation = "''op''" and send' = accept_all and js = example_json
      and ws = "[read_returns [data_message (1, 0) ''{id:r1}'']]"
      and past = "[]" and w = "read_returns []"
      and rest = "[read_returns [data_message (1, 0) ''{id:r1}'']]" and sent' = "[]"
      and lastID' = "(0, 0)"
      and xs = "[\<lparr>Stream = ''infra-op-state'', Messages = []\<rparr>]"]
  by (simp add: StreamOperationLogs_def StreamStateUpdate_def getLogsStreamName_def
        getStateStreamName_def example_GetWorkspaceID_def read_returns_def log_message_def
        data_message_def accept_all_def example_json_def)

text \<open>
  C10, as amended. The completion marker does not end the state tail: the entry that
  \<open>SendOperationCompleted\<close> appended is handled like any other. When \<open>json.Unmarshal\<close>
  accepts its payload, the record it yields is handed to the sink, and when it refuses the
  payload the entry is skipped; either way the tail goes on to the next read. Whatever the
  streams hold, \<open>StreamStateUpdate\<close> returns \<open>nil\<close> only when the context was done at
  some batch boundary, and returns an error only when that error came from a read or from
  the sink.
\<close>

theorem completion_marker_not_terminal:
  "(StreamStateUpdate js gw past infra operation send = (sent, Blocked lastID) \<and>
    Marshal_map js [''status'' \<mapsto> IString ''OPERATION_COMPLETED''] = Inr b \<and>
    XRead w (getStateStreamName gw infra operation) lastID =
      Some (Inr (\<lparr>Stream = s,
                   Messages = [to_XMessage (i, [''id'' \<mapsto> gw infra operation, ''data'' \<mapsto> b])]\<rparr>
                 # xs)) \<and>
    \<not> ctx_Done w \<longrightarrow>
    (case Unmarshal js b of
       Inl err \<Rightarrow>
         StreamStateUpdate js gw (past @ [w]) infra operation send = (sent, Blocked i)
     | Inr st \<Rightarrow>
         send sent st = None \<longrightarrow>
         StreamStateUpdate js gw (past @ [w]) infra operation send = (sent @ [st], Blocked i)))
   \<and> (snd (StreamStateUpdate js gw ws infra operation send) = Returned None \<longrightarrow>
        (\<exists>w \<in> set ws. ctx_Done w))
   \<and> (snd (StreamStateUpdate js gw ws infra operation send) = Returned (Some err) \<longrightarrow>
        (\<exists>w \<in> set ws. \<exists>l. XRead w (getStateStreamName gw infra operation) l = Some (Inl err))
        \<or> (\<exists>h r. send h r = Some err))"
proof (intro conjI impI)
  assume a: "StreamStateUpdate js gw past infra operation send = (sent, Blocked lastID) \<and>
    Marshal_map js [''status'' \<mapsto> IString ''OPERATION_COMPLETED''] = Inr b \<and>
    XRead w (getStateStreamName gw infra operation) lastID =
      Some (Inr (\<lparr>Stream = s,
                   Messages = [to_XMessage (i, [''id'' \<mapsto> gw infra operation, ''data'' \<mapsto> b])]\<rparr>
                 # xs)) \<and>
    \<not> ctx_Done w"
  let ?m = "to_XMessage (i, [''id'' \<mapsto> gw infra operation, ''data'' \<mapsto> b])"
  let ?x = "\<lparr>Stream = s, Messages = [?m]\<rparr>"
  let ?n = "getStateStreamName gw infra operation"
  from a have rd: "XRead w ?n lastID = Some (Inr (?x # xs))"
    by simp
  have ne: "Messages ?x \<noteq> []" by simp
  from a have nd: "\<not> ctx_Done w" by simp
  from a have split: "StreamStateUpdate js gw (past @ [w]) infra operation send =
      tail_loop (state_of js) send ?n [w] lastID sent"
    by (simp only: StreamStateUpdate_append)
  have last: "ID (last (Messages ?x)) = i"
    by (simp add: to_XMessage_def)
  show "case Unmarshal js b of
       Inl err \<Rightarrow>
         StreamStateUpdate js gw (past @ [w]) infra operation send = (sent, Blocked i)
     | Inr st \<Rightarrow>
         send sent st = None \<longrightarrow>
         StreamStateUpdate js gw (past @ [w]) infra operation send = (sent @ [st], Blocked i)"
  proof (cases "Unmarshal js b")
    case (Inl e)
    then have "state_of js ?m = None"
      by (simp add: state_of_def to_XMessage_def)
    then have rm: "range_messages (state_of js) send (Messages ?x) sent = (sent, None)"
      by simp
    from tail_loop_continues [OF rd ne rm nd, of "[]"] split last Inl
    show ?thesis by simp
  next
    case (Inr st)
    then have dec: "state_of js ?m = Some st"
      by (simp add: state_of_def to_XMessage_def)
    have "StreamStateUpdate js gw (past @ [w]) infra operation send = (sent @ [st], Blocked i)"
      if acc: "send sent st = None"
    proof -
      from dec acc have rm: "range_messages (state_of js) send (Messages ?x) sent =
          (sent @ [st], None)"
        by simp
      from tail_loop_continues [OF rd ne rm nd, of "[]"] split last
      show ?thesis by simp
    qed
    with Inr show ?thesis by simp
  qed
next
  assume r: "snd (StreamStateUpdate js gw ws infra operation send) = Returned None"
  from tail_loop_returned [OF r [unfolded StreamStateUpdate_skel]]
  show "\<exists>w \<in> set ws. ctx_Done w"
    by simp
next
  assume r: "snd (StreamStateUpdate js gw ws infra operation send) = Returned (Some err)"
  from tail_loop_returned [OF r [unfolded StreamStateUpdate_skel]]
  show "(\<exists>w \<in> set ws. \<exists>l. XRead w (getStateStreamName gw infra operation) l = Some (Inl err))
        \<or> (\<exists>h r. send h r = Some err)"
    by simp
qed

theorem completion_marker_not_terminal_witness:
  "StreamStateUpdate status_json example_GetWorkspaceID
     ([] @ [read_returns [to_XMessage ((5, 0), [''id'' \<mapsto> example_GetWorkspaceID ''infra'' ''op'',
         ''data'' \<mapsto> ''{'' @ quoted ''status'' @ '':'' @ quoted ''OPERATION_COMPLETED'' @ ''}''])]])
     ''infra'' ''op'' accept_all = ([] @ [''OPERATION_COMPLETED''], Blocked (5, 0))
   \<and> StreamStateUpdate example_json example_GetWorkspaceID
     ([read_returns [data_message (1, 0) ''{id:r1}'']] @
      [read_returns [to_XMessage ((2, 0), [''id'' \<mapsto> example_GetWorkspaceID ''infra'' ''op'',
                                         ''data'' \<mapsto> ''{status:OPERATION_COMPLETED}''])]])
     ''infra'' ''op'' accept_all = ([''r1''] @ [''''], Blocked (2, 0))
   \<and> StreamStateUpdate
     (example_json\<lparr>Unmarshal := \<lambda>s. Inl (Error ''json: cannot unmarshal string'')\<rparr>)
     example_GetWorkspaceID
     ([] @ [read_returns [to_XMessage ((5, 0), [''id'' \<mapsto> example_GetWorkspaceID ''infra'' ''op'',
                                         ''data'' \<mapsto> ''{status:OPERATION_COMPLETED}''])]])
     ''infra'' ''op'' accept_all = ([], Blocked (5, 0))
   \<and> snd (StreamStateUpdate example_json example_GetWorkspaceID
        [cancelled (read_returns [data_message (1, 0) ''{id:r1}''])] ''infra'' ''op'' accept_all) =
      Returned None
   \<and> ctx_Done (cancelled (read_returns [data_message (1, 0) ''{id:r1}'']))
   \<and> snd (StreamStateUpdate example_json example_GetWorkspaceID
        [read_fails (Error ''connection reset'')] ''infra'' ''op'' accept_all) =
      Returned (Some (Error ''connection reset''))"
  using completion_marker_not_terminal [where js = status_json and gw = example_GetWorkspaceID
      and infra = "''infra''" and operation = "''op''" and send = accept_all
      and past = "[]" and sent = "[]" and lastID = "(0, 0)"
      and b = "''{'' @ quoted ''status'' @ '':'' @ quoted ''OPERATION_COMPLETED'' @ ''}''"
      and w = "read_returns [to_XMessage ((5, 0), [''id'' \<mapsto> example_GetWorkspaceID ''infra'' ''op'',
         ''data'' \<mapsto> ''{'' @ quoted ''status'' @ '':'' @ quoted ''OPERATION_COMPLETED'' @ ''}''])]"
      and s = "''infra-op-state''" and i = "(5, 0)" and xs = "[]"]
    completion_marker_not_terminal [where js = example_json and gw = example_GetWorkspaceID
      and infra = "''infra''" and operation = "''op''" and send = accept_all
      and past = "[read_returns [data_message (1, 0) ''{id:r1}'']]" and sent = "[''r1'']"
      and lastID = "(1, 0)" and b = "''{status:OPERATION_COMPLETED}''"
      and w = "read_returns [to_XMessage ((2, 0), [''id'' \<mapsto> example_GetWorkspaceID ''infra'' ''op'',
                                         ''data'' \<mapsto> ''{status:OPERATION_COMPLETED}''])]"
      and s = "''infra-op-state''" and i = "(2, 0)" and xs = "[]"
      and ws = "[cancelled (read_returns [data_message (1, 0) ''{id:r1}''])]"]
    completion_marker_not_terminal [where
      js = "example_json\<lparr>Unmarshal := \<lambda>s. Inl (Error ''json: cannot unmarshal string'')\<rparr>"
      and gw = example_GetWorkspaceID
      and infra = "''infra''" and operation = "''op''" and send = accept_all
      and past = "[]" and sent = "[]" and lastID = "(0, 0)"
      and b = "''{status:OPERATION_COMPLETED}''"
      and w = "read_returns [to_XMessage ((5, 0), [''id'' \<mapsto> example_GetWorkspaceID ''infra'' ''op'',
                                         ''data'' \<mapsto> ''{status:OPERATION_COMPLETED}''])]"
      and s = "''infra-op-state''" and i = "(5, 0)" and xs = "[]"]
    completion_marker_not_terminal [where js = example_json and gw = example_GetWorkspaceID
      and infra = "''infra''" and operation = "''op''" and send = accept_all
      and ws = "[read_fails (Error ''connection reset'')]" and err = "Error ''connection reset''"]
  by (simp add: StreamStateUpdate_def getStateStreamName_def example_GetWorkspaceID_def
        read_returns_def read_fails_def cancelled_def data_message_def to_XMessage_def
        accept_all_def example_json_def status_json_def quoted_def)

text \<open>
  C10, as stated, fails: the record delivered for the marker need not be zero-valued. For
  a state struct with a \<open>status\<close> field, the zero record has an empty status, and the
  marker that \<open>SendOperationCompleted\<close> appended is delivered with the status
  \<open>OPERATION_COMPLETED\<close>.
\<close>

theorem marker_delivered_with_status:
  "Unmarshal status_json ''{}'' = Inr ''''
   \<and> StreamStateUpdate status_json example_GetWorkspaceID
       [store_world (snd (SendOperationCompleted status_json example_GetWorkspaceID example_env
                            empty_redis ''infra'' ''op''))]
       ''infra'' ''op'' accept_all = ([''OPERATION_COMPLETED''], Blocked (5, 0))"
  by (simp add: StreamStateUpdate_def SendOperationCompleted_def XAdd_def getStateStreamName_def
        example_GetWorkspaceID_def example_env_def empty_redis_def store_world_def
        store_XRead_def id_less_def auto_id_def last_id_def to_XMessage_def accept_all_def
        status_json_def quoted_def Let_def)

end
